theory Spec2Isabelle
  imports Complex_Main "HOL-Library.AList" "HOL-Library.Multiset"
begin

section \<open>JavaScript values\<close>

text \<open>
  The dummy backend exists twice in the repository: \<^verbatim>\<open>testbed/backend.ts\<close> (HTTPS capable)
  and an older plain-HTTP JavaScript file. Both keep every job in one module-level
  \<^verbatim>\<open>Map\<close>, drive it with two \<^verbatim>\<open>setTimeout\<close> callbacks per job and serve three
  operations over HTTP.

  A request body is whatever \<^verbatim>\<open>JSON.parse\<close> returns, so the values that flow through the
  handlers are JavaScript values. Strings are byte strings (UTF-8); numbers are
  rationals (no claim inspects a number of a request body).
\<close>

datatype jsval =
    JUndefined
  | JNull
  | JBool bool
  | JNum rat
  | JStr string
  | JArr "jsval list"
  | JObj "(string \<times> jsval) list"

datatype jserror = TypeError

text \<open>\<^verbatim>\<open>v == null\<close>: true for \<^verbatim>\<open>null\<close> and \<^verbatim>\<open>undefined\<close> only.\<close>

fun looseEqNull :: "jsval \<Rightarrow> bool" where
  "looseEqNull JUndefined = True"
| "looseEqNull JNull = True"
| "looseEqNull _ = False"

text \<open>
  \<^verbatim>\<open>keyof ReviewRequest\<close>: the five property names the handlers read from a body.
\<close>

datatype field = OrganizationUrl | ProjectId | RepositoryId | PullRequestId | IterationId

fun fieldName :: "field \<Rightarrow> string" where
  "fieldName OrganizationUrl = ''organizationUrl''"
| "fieldName ProjectId = ''projectId''"
| "fieldName RepositoryId = ''repositoryId''"
| "fieldName PullRequestId = ''pullRequestId''"
| "fieldName IterationId = ''iterationId''"

text \<open>
  \<^verbatim>\<open>body[k]\<close> for one of the five names. Reading a property of \<^verbatim>\<open>null\<close> or
  \<^verbatim>\<open>undefined\<close> throws a TypeError. An object yields its own property or
  \<^verbatim>\<open>undefined\<close> (\<^verbatim>\<open>Object.prototype\<close> has none of the five names); a boolean, number,
  string or array has none of them either.
\<close>

fun getField :: "jsval \<Rightarrow> field \<Rightarrow> jserror + jsval" where
  "getField JUndefined k = Inl TypeError"
| "getField JNull k = Inl TypeError"
| "getField (JObj kvs) k =
     Inr (case map_of kvs (fieldName k) of None \<Rightarrow> JUndefined | Some v \<Rightarrow> v)"
| "getField v k = Inr JUndefined"

text \<open>
  A template literal \<^verbatim>\<open>`${v}`\<close> converts \<^verbatim>\<open>v\<close> to a string. For an object parsed from
  JSON, \<^verbatim>\<open>toString\<close> is looked up first: an own property of that name is JSON data,
  hence not callable, and the inherited \<^verbatim>\<open>valueOf\<close> returns the object itself, so the
  conversion throws a TypeError. Without such a property \<^verbatim>\<open>Object.prototype.toString\<close>
  answers. An array joins the conversions of its elements (\<^verbatim>\<open>null\<close> and
  \<^verbatim>\<open>undefined\<close> elements are skipped). Primitive values always convert. The stack
  overflow that the conversion of very deeply nested arrays ends in is not modelled.
\<close>

fun toStringThrows :: "jsval \<Rightarrow> bool" where
  "toStringThrows (JObj kvs) = (map_of kvs ''toString'' \<noteq> None)"
| "toStringThrows (JArr vs) = list_ex toStringThrows vs"
| "toStringThrows v = False"

section \<open>Data model\<close>

datatype JobStatus = Pending | Processing | Completed | Failed

datatype Severity = SevError | SevWarning | SevSuggestion | SevInfo

record ReviewComment =
  filePath :: "string option"
  lineNumber :: "nat option"
  severity :: Severity
  message :: string

record ReviewResult =
  summary :: string
  comments :: "ReviewComment list"

text \<open>
  A job. \<^verbatim>\<open>jobToListItem\<close> returns the first nine fields, \<^verbatim>\<open>jobToStatusResponse\<close> all
  eleven, so the job record extends the list item. The five request fields hold whatever
  value the body carried. \<^verbatim>\<open>submittedAt\<close> and \<^verbatim>\<open>completedAt\<close> are
  \<^verbatim>\<open>new Date().toISOString()\<close>: the model keeps the milliseconds since the epoch, whose
  numeric order is the order of the fixed-width ISO strings (years 0000 to 9999).
\<close>

record JobListItem =
  jobId :: string
  status :: JobStatus
  organizationUrl :: jsval
  projectId :: jsval
  repositoryId :: jsval
  pullRequestId :: jsval
  iterationId :: jsval
  submittedAt :: nat
  completedAt :: "nat option"

record Job = JobListItem +
  result :: "ReviewResult option"
  error :: "string option"

definition emDash :: string where
  "emDash = [CHR 0xE2, CHR 0x80, CHR 0x94]"

definition MOCK_SUCCESS_RESULT :: ReviewResult where
  "MOCK_SUCCESS_RESULT = \<lparr>
     summary =
       ''Overall this PR is well-structured and the intent is clear. There are a few issues '' @
       ''worth addressing before merging '' @ emDash @ '' one potential runtime error, a security concern, '' @
       ''and a couple of suggestions to improve maintainability.'',
     comments = [
       \<lparr> filePath = Some ''src/auth/login.ts'', lineNumber = Some 42, severity = SevError,
         message =
           ''Unhandled promise rejection: the async call on this line lacks a try/catch. '' @
           ''If the network request fails, the error will be swallowed silently.'' \<rparr>,
       \<lparr> filePath = Some ''src/auth/login.ts'', lineNumber = Some 67, severity = SevWarning,
         message =
           ''Sensitive data (access token) is written to the console on this line. '' @
           ''Remove or guard behind a debug flag before deploying to production.'' \<rparr>,
       \<lparr> filePath = Some ''src/components/UserProfile.tsx'', lineNumber = Some 15,
         severity = SevSuggestion,
         message =
           ''This component re-renders on every parent update. '' @
           ''Wrapping it with React.memo() would avoid unnecessary renders when props have not changed.'' \<rparr>,
       \<lparr> filePath = Some ''src/utils/formatDate.ts'', lineNumber = None, severity = SevSuggestion,
         message =
           ''Consider using Intl.DateTimeFormat instead of a hand-rolled date formatter '' @ emDash @ '' '' @
           ''it handles locale and timezone differences automatically.'' \<rparr>,
       \<lparr> filePath = None, lineNumber = None, severity = SevInfo,
         message =
           ''Test coverage for the authentication module looks thorough. '' @
           ''The new login flow is well-structured and the happy path is fully exercised.'' \<rparr>
     ] \<rparr>"

definition MOCK_FAIL_ERROR :: string where
  "MOCK_FAIL_ERROR =
     ''The AI agent could not complete the review: unable to retrieve the diff for pull request '' @
     ''(simulated failure '' @ emDash @ '' set SIMULATE=success to test the success path).''"

section \<open>Configuration\<close>

text \<open>
  The module constants read from the environment. \<^verbatim>\<open>DELAY_MS\<close> is the result of
  \<^verbatim>\<open>parseInt\<close>: an integer, or \<^verbatim>\<open>NaN\<close> (\<open>None\<close>) when the variable holds no number.
\<close>

record config =
  PORT :: "int option"
  CLIENT_KEY :: string
  SIMULATE :: string
  DELAY_MS :: "int option"
  HTTP_ONLY :: bool

text \<open>The values when no environment variable is set.\<close>

definition defaultConfig :: config where
  "defaultConfig = \<lparr> PORT = Some 31001, CLIENT_KEY = ''test-client-key'',
     SIMULATE = ''success'', DELAY_MS = Some 6000, HTTP_ONLY = False \<rparr>"

section \<open>Numbers and timers of the runtime\<close>

text \<open>
  A JavaScript number that is either \<^verbatim>\<open>NaN\<close> (\<open>None\<close>) or finite. The product
  \<^verbatim>\<open>DELAY_MS * 0.33\<close> is taken exactly; the rounding of the double product is not
  modelled.
\<close>

type_synonym jsnum = "rat option"

fun jsTimes :: "jsnum \<Rightarrow> jsnum \<Rightarrow> jsnum" where
  "jsTimes (Some a) (Some b) = Some (a * b)"
| "jsTimes _ _ = None"

fun mathMin :: "jsnum \<Rightarrow> jsnum \<Rightarrow> jsnum" where
  "mathMin (Some a) (Some b) = Some (min a b)"
| "mathMin _ _ = None"

definition TIMEOUT_MAX :: rat where
  "TIMEOUT_MAX = 2147483647"

text \<open>
  The delay Node.js gives a timer: a delay that is \<^verbatim>\<open>NaN\<close>, below 1 or above
  \<open>2\<^sup>3\<^sup>1 - 1\<close> is set to 1, any other is truncated to whole milliseconds.
\<close>

fun nodeDelay :: "jsnum \<Rightarrow> nat" where
  "nodeDelay None = 1"
| "nodeDelay (Some d) = (if d < 1 \<or> TIMEOUT_MAX < d then 1 else nat \<lfloor>d\<rfloor>)"

text \<open>The two arrow functions \<^verbatim>\<open>scheduleJob\<close> hands to \<^verbatim>\<open>setTimeout\<close>, closed over the job id.\<close>

datatype callback = ToProcessing string | ToTerminal string

text \<open>
  A pending timer: the delay argument of \<^verbatim>\<open>setTimeout\<close>, the time it is due (the
  loop's clock when it was armed plus the delay Node.js gives it) and its callback.
\<close>

record timer =
  requested :: jsnum
  due :: nat
  callback :: callback

text \<open>
  What the environment supplies to one turn of the event loop: the result of
  \<^verbatim>\<open>randomUUID()\<close>, the wall clock read by \<^verbatim>\<open>new Date()\<close>, and the loop's own
  clock, from which timers are measured.
\<close>

record env =
  uuid :: string
  dateNow :: nat
  loopNow :: nat

text \<open>
  The process state: the \<^verbatim>\<open>jobs\<close> map, in insertion order as a JavaScript \<^verbatim>\<open>Map\<close>
  keeps it, and the timers armed and not yet fired, in the order they were armed.
\<close>

record state =
  jobs :: "(string \<times> Job) list"
  timers :: "timer list"

definition initialState :: state where
  "initialState = \<lparr> jobs = [], timers = [] \<rparr>"

definition setTimeout :: "env \<Rightarrow> callback \<Rightarrow> jsnum \<Rightarrow> state \<Rightarrow> state" where
  "setTimeout e cb delay s =
     s\<lparr> timers := timers s @
       [\<lparr> requested = delay, due = loopNow e + nodeDelay delay, callback = cb \<rparr>] \<rparr>"

section \<open>Job lifecycle\<close>

definition processingDelay :: "config \<Rightarrow> jsnum" where
  "processingDelay cfg =
     mathMin (Some 2000) (jsTimes (map_option of_int (DELAY_MS cfg)) (Some (33 / 100)))"

definition scheduleJob :: "config \<Rightarrow> env \<Rightarrow> string \<Rightarrow> state \<Rightarrow> state" where
  "scheduleJob cfg e jid s =
     setTimeout e (ToTerminal jid) (map_option of_int (DELAY_MS cfg))
       (setTimeout e (ToProcessing jid) (processingDelay cfg) s)"

text \<open>
  The callbacks mutate the job object the map holds, which is an update at its key
  (the entry keeps its place in the map).
\<close>

fun runCallback :: "config \<Rightarrow> nat \<Rightarrow> callback \<Rightarrow> state \<Rightarrow> state" where
  "runCallback cfg now (ToProcessing jid) s =
     (case map_of (jobs s) jid of
        None \<Rightarrow> s
      | Some job \<Rightarrow> s\<lparr> jobs := AList.update jid (job\<lparr> status := Processing \<rparr>) (jobs s) \<rparr>)"
| "runCallback cfg now (ToTerminal jid) s =
     (case map_of (jobs s) jid of
        None \<Rightarrow> s
      | Some job \<Rightarrow>
          if SIMULATE cfg = ''fail''
          then s\<lparr> jobs := AList.update jid
                 (job\<lparr> status := Failed, error := Some MOCK_FAIL_ERROR,
                       completedAt := Some now \<rparr>) (jobs s) \<rparr>
          else s\<lparr> jobs := AList.update jid
                 (job\<lparr> status := Completed, result := Some MOCK_SUCCESS_RESULT,
                       completedAt := Some now \<rparr>) (jobs s) \<rparr>)"

text \<open>
  \<^verbatim>\<open>makeJob(request)\<close> reads the five properties of the request (which throws on
  \<^verbatim>\<open>null\<close>), stores the new job under its id and arms its timers.
\<close>

definition makeJob :: "config \<Rightarrow> env \<Rightarrow> jsval \<Rightarrow> state \<Rightarrow> jserror + (Job \<times> state)" where
  "makeJob cfg e request s =
     (case getField request OrganizationUrl of Inl err \<Rightarrow> Inl err | Inr org \<Rightarrow>
     (case getField request ProjectId of Inl err \<Rightarrow> Inl err | Inr proj \<Rightarrow>
     (case getField request RepositoryId of Inl err \<Rightarrow> Inl err | Inr repo \<Rightarrow>
     (case getField request PullRequestId of Inl err \<Rightarrow> Inl err | Inr pr \<Rightarrow>
     (case getField request IterationId of Inl err \<Rightarrow> Inl err | Inr iter \<Rightarrow>
        (let job = \<lparr> jobId = uuid e, status = Pending, organizationUrl = org,
                     projectId = proj, repositoryId = repo, pullRequestId = pr,
                     iterationId = iter, submittedAt = dateNow e, completedAt = None,
                     result = None, error = None \<rparr>
         in Inr (job, scheduleJob cfg e (uuid e)
                   (s\<lparr> jobs := AList.update (uuid e) job (jobs s) \<rparr>))))))))"

definition jobToListItem :: "Job \<Rightarrow> JobListItem" where
  "jobToListItem job =
     \<lparr> jobId = jobId job, status = status job, organizationUrl = organizationUrl job,
       projectId = projectId job, repositoryId = repositoryId job,
       pullRequestId = pullRequestId job, iterationId = iterationId job,
       submittedAt = submittedAt job, completedAt = completedAt job \<rparr>"

definition jobToStatusResponse :: "Job \<Rightarrow> Job" where
  "jobToStatusResponse job =
     (let item = jobToListItem job in
      \<lparr> jobId = jobId item, status = status item, organizationUrl = organizationUrl item,
        projectId = projectId item, repositoryId = repositoryId item,
        pullRequestId = pullRequestId item, iterationId = iterationId item,
        submittedAt = submittedAt item, completedAt = completedAt item,
        result = result job, error = error job \<rparr>)"

section \<open>The event loop\<close>

text \<open>
  Timers fire in the order of their due times; timers due at the same time fire in the
  order they were armed. This is the order in which Node.js runs the timers of a loop
  that keeps up. Node.js keeps one list of timers per delay and drains one list at a time,
  so after a stalled loop it may run a timer before another that was due earlier; and it
  reads the clock at each call of \<^verbatim>\<open>setTimeout\<close>, so the second timer of a job may be
  measured from a clock value a few milliseconds later than the first. The model fires
  strictly by due time and measures both timers of a job from one clock value.
\<close>

fun earliest :: "timer list \<Rightarrow> timer option" where
  "earliest [] = None"
| "earliest (t # ts) =
     (case earliest ts of
        None \<Rightarrow> Some t
      | Some u \<Rightarrow> if due t \<le> due u then Some t else Some u)"

definition fireNext :: "config \<Rightarrow> nat \<Rightarrow> state \<Rightarrow> state" where
  "fireNext cfg now s =
     (case earliest (timers s) of
        None \<Rightarrow> s
      | Some t \<Rightarrow> runCallback cfg now (callback t) (s\<lparr> timers := remove1 t (timers s) \<rparr>))"

section \<open>Requests and responses\<close>

text \<open>
  What the handlers read of a request: the method, the path of the URL as
  \<^verbatim>\<open>new URL(...).pathname\<close> gives it, two headers and the body. \<open>parsedBody\<close> is the
  result of \<^verbatim>\<open>JSON.parse\<close> on the text received, \<open>None\<close> when it throws.
\<close>

record request =
  reqMethod :: string
  pathname :: string
  originHeader :: "string option"
  clientKeyHeader :: "string option"
  parsedBody :: "jsval option"

text \<open>The JSON bodies the handlers send, by the object each one builds.\<close>

datatype respBody =
    NoBody
  | ErrorBody string
  | JobIdBody string
  | ListBody "JobListItem list"
  | StatusBody Job

record response =
  statusCode :: nat
  headers :: "(string \<times> string) list"
  body :: respBody

text \<open>
  The handler is an \<^verbatim>\<open>async\<close> function whose promise nobody awaits: an exception thrown
  inside it leaves the request without any response. The state that is returned with
  such an outcome is the state at the throw. Node.js ends the process on the rejection
  that nobody handles; in the model the run goes on from that state, which only adds
  runs.
\<close>

datatype outcome = Responded response | Unhandled jserror

subsection \<open>Origins\<close>

definition stripPrefix :: "string \<Rightarrow> string \<Rightarrow> string option" where
  "stripPrefix p s = (if take (length p) s = p then Some (drop (length p) s) else None)"

definition charCode :: "char \<Rightarrow> nat" where
  "charCode c = of_char c"

definition isDigit :: "char \<Rightarrow> bool" where
  "isDigit c = (charCode CHR ''0'' \<le> charCode c \<and> charCode c \<le> charCode CHR ''9'')"

definition isLabelChar :: "char \<Rightarrow> bool" where
  "isLabelChar c =
     ((charCode CHR ''a'' \<le> charCode c \<and> charCode c \<le> charCode CHR ''z'') \<or>
      isDigit c \<or> c = CHR ''-'')"

text \<open>\<^verbatim>\<open>(:\d+)?$\<close>\<close>

definition optPort :: "string \<Rightarrow> bool" where
  "optPort r = (case r of [] \<Rightarrow> True | c # ds \<Rightarrow> c = CHR '':'' \<and> ds \<noteq> [] \<and> list_all isDigit ds)"

text \<open>\<^verbatim>\<open>([a-z0-9-]+\.)?\<close> followed by the fixed host \<open>h\<close> and the end of the string.\<close>

definition optSubdomain :: "string \<Rightarrow> string \<Rightarrow> bool" where
  "optSubdomain h r =
     (r = h \<or>
      (length h < length r \<and> drop (length r - length h) r = h \<and>
       (let pre = take (length r - length h) r in
        last pre = CHR ''.'' \<and> butlast pre \<noteq> [] \<and> list_all isLabelChar (butlast pre))))"

text \<open>\<^verbatim>\<open>[a-z0-9-]+\.\<close> followed by the fixed host \<open>h\<close> and the end of the string.\<close>

definition subdomainOf :: "string \<Rightarrow> string \<Rightarrow> bool" where
  "subdomainOf h r = (r \<noteq> h \<and> optSubdomain h r)"

definition ALLOWED_ORIGINS :: "(string \<Rightarrow> bool) list" where
  "ALLOWED_ORIGINS = [
     (\<lambda>origin.
        (case stripPrefix ''http://localhost'' origin of Some r \<Rightarrow> optPort r | None \<Rightarrow> False) \<or>
        (case stripPrefix ''https://localhost'' origin of Some r \<Rightarrow> optPort r | None \<Rightarrow> False)),
     (\<lambda>origin. case stripPrefix ''https://'' origin of
        Some r \<Rightarrow> optSubdomain ''dev.azure.com'' r | None \<Rightarrow> False),
     (\<lambda>origin. case stripPrefix ''https://'' origin of
        Some r \<Rightarrow> optSubdomain ''visualstudio.com'' r | None \<Rightarrow> False),
     (\<lambda>origin. case stripPrefix ''https://'' origin of
        Some r \<Rightarrow> subdomainOf ''gallerycdn.vsassets.io'' r | None \<Rightarrow> False)]"

definition isOriginAllowed :: "string \<Rightarrow> bool" where
  "isOriginAllowed origin = (origin \<noteq> [] \<and> list_ex (\<lambda>re. re origin) ALLOWED_ORIGINS)"

text \<open>\<^verbatim>\<open>setCorsHeaders\<close> of \<^verbatim>\<open>backend.ts\<close>.\<close>

definition setCorsHeaders :: "string \<Rightarrow> bool \<Rightarrow> (string \<times> string) list" where
  "setCorsHeaders origin isPreflight =
     [(''Access-Control-Allow-Origin'',
        if isOriginAllowed origin then origin else ''http://localhost:3000''),
      (''Access-Control-Allow-Methods'', ''GET, POST, OPTIONS''),
      (''Access-Control-Allow-Headers'', ''Content-Type, X-Client-Key, X-Ado-Token''),
      (''Vary'', ''Origin'')] @
     (if isPreflight then [(''Access-Control-Allow-Private-Network'', ''true'')] else [])"

text \<open>\<^verbatim>\<open>setCorsHeaders\<close> of the plain-HTTP file: only \<^verbatim>\<open>http://localhost\<close> origins.\<close>

definition setCorsHeaders_js :: "string \<Rightarrow> (string \<times> string) list" where
  "setCorsHeaders_js origin =
     [(''Access-Control-Allow-Origin'',
        if origin \<noteq> [] \<and>
           (case stripPrefix ''http://localhost'' origin of Some r \<Rightarrow> optPort r | None \<Rightarrow> False)
        then origin else ''http://localhost:3000''),
      (''Access-Control-Allow-Methods'', ''GET, POST, OPTIONS''),
      (''Access-Control-Allow-Headers'', ''Content-Type, X-Client-Key, X-Ado-Token''),
      (''Vary'', ''Origin'')]"

subsection \<open>Helpers shared by both files\<close>

definition readBody :: "request \<Rightarrow> jsval" where
  "readBody req = (case parsedBody req of Some v \<Rightarrow> v | None \<Rightarrow> JObj [])"

text \<open>\<open>hs\<close> are the headers set on the response so far.\<close>

definition send :: "(string \<times> string) list \<Rightarrow> nat \<Rightarrow> respBody \<Rightarrow> response" where
  "send hs st b =
     \<lparr> statusCode = st, headers = hs @ [(''Content-Type'', ''application/json'')], body = b \<rparr>"

text \<open>
  \<^verbatim>\<open>checkAuth\<close>: \<open>Some\<close> of the 401 response it sent when it returns false, \<open>None\<close> when
  it returns true.
\<close>

definition checkAuth :: "config \<Rightarrow> request \<Rightarrow> (string \<times> string) list \<Rightarrow> response option" where
  "checkAuth cfg req hs =
     (if clientKeyHeader req \<noteq> Some (CLIENT_KEY cfg)
      then Some (send hs 401 (ErrorBody
             (''Invalid or missing X-Client-Key. Expected: \"'' @ CLIENT_KEY cfg @ ''\"'')))
      else None)"

definition required :: "field list" where
  "required = [OrganizationUrl, ProjectId, RepositoryId, PullRequestId, IterationId]"

text \<open>\<^verbatim>\<open>required.filter(k => body[k] == null)\<close>; the property read may throw.\<close>

fun filterMissing :: "jsval \<Rightarrow> field list \<Rightarrow> jserror + field list" where
  "filterMissing b [] = Inr []"
| "filterMissing b (k # ks) =
     (case getField b k of
        Inl err \<Rightarrow> Inl err
      | Inr v \<Rightarrow>
          (case filterMissing b ks of
             Inl err \<Rightarrow> Inl err
           | Inr r \<Rightarrow> Inr (if looseEqNull v then k # r else r)))"

text \<open>\<^verbatim>\<open>missing.join(', ')\<close>\<close>

fun joinFields :: "field list \<Rightarrow> string" where
  "joinFields [] = []"
| "joinFields [k] = fieldName k"
| "joinFields (k # ks) = fieldName k @ '', '' @ joinFields ks"

text \<open>\<^verbatim>\<open>url.pathname.match(/^\/reviews\/([^/]+)$/)\<close>: the captured job id.\<close>

definition pollMatch :: "string \<Rightarrow> string option" where
  "pollMatch p =
     (case stripPrefix ''/reviews/'' p of
        None \<Rightarrow> None
      | Some r \<Rightarrow> if r \<noteq> [] \<and> CHR ''/'' \<notin> set r then Some r else None)"

subsection \<open>Sorting\<close>

text \<open>
  \<^verbatim>\<open>a.localeCompare(b)\<close> on two ISO timestamps, and \<^verbatim>\<open>Array.prototype.sort\<close> with a
  comparator. The sort is stable; an insertion sort that keeps an element in front of the
  elements it compares equal to is the stable sort of a list.
\<close>

definition localeCompare :: "nat \<Rightarrow> nat \<Rightarrow> int" where
  "localeCompare a b = (if a < b then - 1 else if a = b then 0 else 1)"

fun insertBy :: "('a \<Rightarrow> 'a \<Rightarrow> int) \<Rightarrow> 'a \<Rightarrow> 'a list \<Rightarrow> 'a list" where
  "insertBy cmp x [] = [x]"
| "insertBy cmp x (y # ys) = (if cmp x y \<le> 0 then x # y # ys else y # insertBy cmp x ys)"

definition jsSort :: "('a \<Rightarrow> 'a \<Rightarrow> int) \<Rightarrow> 'a list \<Rightarrow> 'a list" where
  "jsSort cmp xs = foldr (insertBy cmp) xs []"

text \<open>\<^verbatim>\<open>[...jobs.values()]\<close>\<close>

definition mapValues :: "('k \<times> 'v) list \<Rightarrow> 'v list" where
  "mapValues m = map snd m"

subsection \<open>The router of \<^verbatim>\<open>backend.ts\<close>\<close>

definition handleRequest :: "config \<Rightarrow> env \<Rightarrow> request \<Rightarrow> state \<Rightarrow> outcome \<times> state" where
  "handleRequest cfg e req s =
     (let origin = (case originHeader req of Some v \<Rightarrow> v | None \<Rightarrow> []);
          isPreflight = (reqMethod req = ''OPTIONS'');
          hs = setCorsHeaders origin isPreflight
      in
      if isPreflight then (Responded \<lparr> statusCode = 204, headers = hs, body = NoBody \<rparr>, s)
      else if reqMethod req = ''POST'' \<and> pathname req = ''/reviews'' then
        (case checkAuth cfg req hs of
           Some r \<Rightarrow> (Responded r, s)
         | None \<Rightarrow>
             let b = readBody req in
             (case filterMissing b required of
                Inl err \<Rightarrow> (Unhandled err, s)
              | Inr missing \<Rightarrow>
                  if missing \<noteq> [] then
                    (Responded (send hs 422
                       (ErrorBody (''Missing required fields: '' @ joinFields missing))), s)
                  else
                    (case makeJob cfg e b s of
                       Inl err \<Rightarrow> (Unhandled err, s)
                     | Inr (job, s') \<Rightarrow>
                         if toStringThrows (pullRequestId job) then (Unhandled TypeError, s')
                         else (Responded (send hs 202 (JobIdBody (jobId job))), s'))))
      else if reqMethod req = ''GET'' \<and> pathname req = ''/reviews'' then
        (case checkAuth cfg req hs of
           Some r \<Rightarrow> (Responded r, s)
         | None \<Rightarrow>
             (Responded (send hs 200 (ListBody (map jobToListItem
                (jsSort (\<lambda>a b. localeCompare (submittedAt b) (submittedAt a))
                   (mapValues (jobs s)))))), s))
      else
        (case (if reqMethod req = ''GET'' then pollMatch (pathname req) else None) of
           Some jid \<Rightarrow>
             (case checkAuth cfg req hs of
                Some r \<Rightarrow> (Responded r, s)
              | None \<Rightarrow>
                  (case map_of (jobs s) jid of
                     None \<Rightarrow> (Responded (send hs 404 (ErrorBody (''Job not found: '' @ jid))), s)
                   | Some job \<Rightarrow> (Responded (send hs 200 (StatusBody (jobToStatusResponse job))), s)))
         | None \<Rightarrow> (Responded (send hs 404 (ErrorBody ''Not found'')), s)))"

subsection \<open>The router of the plain-HTTP file\<close>

text \<open>
  Its helpers \<^verbatim>\<open>scheduleJob\<close>, \<^verbatim>\<open>makeJob\<close>, \<^verbatim>\<open>jobToListItem\<close>,
  \<^verbatim>\<open>jobToStatusResponse\<close>, \<^verbatim>\<open>readBody\<close>, \<^verbatim>\<open>send\<close> and \<^verbatim>\<open>checkAuth\<close> have the same
  text as those of \<^verbatim>\<open>backend.ts\<close> (its \<^verbatim>\<open>scheduleJob\<close> takes the request as a second
  argument and never reads it). The router sets other CORS headers and logs
  \<^verbatim>\<open>body.pullRequestId\<close> where \<^verbatim>\<open>backend.ts\<close> logs \<^verbatim>\<open>job.pullRequestId\<close>.
\<close>

definition handleRequest_js :: "config \<Rightarrow> env \<Rightarrow> request \<Rightarrow> state \<Rightarrow> outcome \<times> state" where
  "handleRequest_js cfg e req s =
     (let origin = (case originHeader req of Some v \<Rightarrow> v | None \<Rightarrow> []);
          hs = setCorsHeaders_js origin
      in
      if reqMethod req = ''OPTIONS'' then
        (Responded \<lparr> statusCode = 204, headers = hs, body = NoBody \<rparr>, s)
      else if reqMethod req = ''POST'' \<and> pathname req = ''/reviews'' then
        (case checkAuth cfg req hs of
           Some r \<Rightarrow> (Responded r, s)
         | None \<Rightarrow>
             let b = readBody req in
             (case filterMissing b required of
                Inl err \<Rightarrow> (Unhandled err, s)
              | Inr missing \<Rightarrow>
                  if missing \<noteq> [] then
                    (Responded (send hs 422
                       (ErrorBody (''Missing required fields: '' @ joinFields missing))), s)
                  else
                    (case makeJob cfg e b s of
                       Inl err \<Rightarrow> (Unhandled err, s)
                     | Inr (job, s') \<Rightarrow>
                         (case getField b PullRequestId of
                            Inl err \<Rightarrow> (Unhandled err, s')
                          | Inr pr \<Rightarrow>
                              if toStringThrows pr then (Unhandled TypeError, s')
                              else (Responded (send hs 202 (JobIdBody (jobId job))), s')))))
      else if reqMethod req = ''GET'' \<and> pathname req = ''/reviews'' then
        (case checkAuth cfg req hs of
           Some r \<Rightarrow> (Responded r, s)
         | None \<Rightarrow>
             (Responded (send hs 200 (ListBody (map jobToListItem
                (jsSort (\<lambda>a b. localeCompare (submittedAt b) (submittedAt a))
                   (mapValues (jobs s)))))), s))
      else
        (case (if reqMethod req = ''GET'' then pollMatch (pathname req) else None) of
           Some jid \<Rightarrow>
             (case checkAuth cfg req hs of
                Some r \<Rightarrow> (Responded r, s)
              | None \<Rightarrow>
                  (case map_of (jobs s) jid of
                     None \<Rightarrow> (Responded (send hs 404 (ErrorBody (''Job not found: '' @ jid))), s)
                   | Some job \<Rightarrow> (Responded (send hs 200 (StatusBody (jobToStatusResponse job))), s)))
         | None \<Rightarrow> (Responded (send hs 404 (ErrorBody ''Not found'')), s)))"

subsection \<open>Runs of the process\<close>

text \<open>
  One turn of the event loop is a request being handled or the next timer firing (its
  argument is the wall clock then). A run is a sequence of turns.
\<close>

datatype event = Request env request | TimerFires nat

fun step :: "config \<Rightarrow> state \<Rightarrow> event \<Rightarrow> state" where
  "step cfg s (Request e req) = snd (handleRequest cfg e req s)"
| "step cfg s (TimerFires now) = fireNext cfg now s"

definition run :: "config \<Rightarrow> state \<Rightarrow> event list \<Rightarrow> state" where
  "run cfg s evs = foldl (step cfg) s evs"

section \<open>Certificate manager\<close>

text \<open>
  The directory of \<^verbatim>\<open>backend.ts\<close> is a map from file name to a file with its content
  and its permission bits: \<^verbatim>\<open>existsSync\<close> asks whether a name is bound and
  \<^verbatim>\<open>readFileSync\<close> returns the content (input/output failures on an existing file are
  outside the model). The platform supplies the clock, the X.509 parser (\<open>None\<close> when
  \<^verbatim>\<open>new X509Certificate\<close> throws or \<^verbatim>\<open>validTo\<close> is no date, which compares false; else
  the \<^verbatim>\<open>validTo\<close> date in milliseconds), \<^verbatim>\<open>selfsigned.generate\<close> and the umask of the
  process. The result holds the pair that is served and the directory as the function
  leaves it.
\<close>

text \<open>Subject alternative names: type 2 is a DNS name, type 7 an IP address.\<close>

datatype altName = DnsName string | IpAddress string

record generateOptions =
  keySize :: nat
  days :: nat
  algorithm :: string
  altNames :: "altName list"

record pems =
  pemPrivate :: string
  pemCert :: string

record platform =
  x509ValidTo :: "string \<Rightarrow> int option"
  dateNowMs :: int
  generate :: "(string \<times> string) list \<Rightarrow> generateOptions \<Rightarrow> pems"
  umask :: nat

definition CERT_FILE :: string where
  "CERT_FILE = ''localhost-cert.pem''"

definition KEY_FILE :: string where
  "KEY_FILE = ''localhost-key.pem''"

definition RENEW_BEFORE_DAYS :: int where
  "RENEW_BEFORE_DAYS = 30"

record fileEntry =
  fileData :: string
  fileMode :: nat

record certAndKey =
  cert :: string
  key :: string

text \<open>The file mode \<^verbatim>\<open>0o600\<close>.\<close>

definition ownerOnly :: nat where
  "ownerOnly = 6 * 8 ^ 2 + 0 * 8 + 0"

text \<open>
  \<^verbatim>\<open>fs.writeFileSync(file, data, {mode})\<close> opens the file for writing, creating it if
  it is absent. The mode, less the bits of the umask, becomes the permission of a file
  that is created; a file that exists is truncated and keeps the permission it has.
\<close>

definition writeFileSync ::
  "nat \<Rightarrow> (string \<rightharpoonup> fileEntry) \<Rightarrow> string \<Rightarrow> string \<Rightarrow> nat \<Rightarrow> (string \<rightharpoonup> fileEntry)" where
  "writeFileSync um fs path d m =
     fs(path \<mapsto>
       (case fs path of
          None \<Rightarrow> \<lparr> fileData = d, fileMode = m - Bit_Operations.and m um \<rparr>
        | Some f \<Rightarrow> f\<lparr> fileData := d \<rparr>))"

text \<open>The \<^verbatim>\<open>try\<close> block: \<open>None\<close> when it throws or falls through to regeneration.\<close>

definition reuseCert :: "platform \<Rightarrow> (string \<rightharpoonup> fileEntry) \<Rightarrow> certAndKey option" where
  "reuseCert pf fs =
     (case fs CERT_FILE of
        None \<Rightarrow> None
      | Some certFile \<Rightarrow>
          (let certPem = fileData certFile in
           case x509ValidTo pf certPem of
             None \<Rightarrow> None
           | Some validTo \<Rightarrow>
               let renewAfter = dateNowMs pf + RENEW_BEFORE_DAYS * 24 * 60 * 60 * 1000 in
               if validTo > renewAfter
               then (case fs KEY_FILE of
                       None \<Rightarrow> None
                     | Some k \<Rightarrow> Some \<lparr> cert = certPem, key = fileData k \<rparr>)
               else None))"

definition loadOrGenerateCert ::
  "platform \<Rightarrow> (string \<rightharpoonup> fileEntry) \<Rightarrow> certAndKey \<times> (string \<rightharpoonup> fileEntry)" where
  "loadOrGenerateCert pf fs =
     (case (if fs CERT_FILE \<noteq> None \<and> fs KEY_FILE \<noteq> None then reuseCert pf fs else None) of
        Some r \<Rightarrow> (r, fs)
      | None \<Rightarrow>
          let p = generate pf [(''commonName'', ''localhost'')]
                    \<lparr> keySize = 2048, days = 365, algorithm = ''sha256'',
                      altNames = [DnsName ''localhost'', IpAddress ''127.0.0.1''] \<rparr>;
              fs1 = writeFileSync (umask pf) fs CERT_FILE (pemCert p) ownerOnly;
              fs2 = writeFileSync (umask pf) fs1 KEY_FILE (pemPrivate p) ownerOnly
          in (\<lparr> cert = pemCert p, key = pemPrivate p \<rparr>, fs2))"

section \<open>Notions used to state the properties\<close>

text \<open>The three job operations, as the routers match them.\<close>

definition isJobOperation :: "request \<Rightarrow> bool" where
  "isJobOperation req =
     ((reqMethod req = ''POST'' \<and> pathname req = ''/reviews'') \<or>
      (reqMethod req = ''GET'' \<and> pathname req = ''/reviews'') \<or>
      (reqMethod req = ''GET'' \<and> pollMatch (pathname req) \<noteq> None))"

text \<open>What a client sees of an outcome: the status code and the JSON body, if any.\<close>

fun statusAndBody :: "outcome \<Rightarrow> (nat \<times> respBody) option" where
  "statusAndBody (Responded r) = Some (statusCode r, body r)"
| "statusAndBody (Unhandled err) = None"

text \<open>The value of \<^verbatim>\<open>body[k]\<close> where the read does not throw.\<close>

definition fieldValue :: "jsval \<Rightarrow> field \<Rightarrow> jsval" where
  "fieldValue b k = (case getField b k of Inr v \<Rightarrow> v | Inl err \<Rightarrow> JUndefined)"

text \<open>The relation between the status of a job and its nullable fields.\<close>

definition jobInvariant :: "Job \<Rightarrow> bool" where
  "jobInvariant j =
     (case status j of
        Pending \<Rightarrow> result j = None \<and> error j = None \<and> completedAt j = None
      | Processing \<Rightarrow> result j = None \<and> error j = None \<and> completedAt j = None
      | Completed \<Rightarrow> result j \<noteq> None \<and> error j = None \<and> completedAt j \<noteq> None
      | Failed \<Rightarrow> result j = None \<and> error j \<noteq> None \<and> completedAt j \<noteq> None)"

text \<open>The fields of a job that are written at creation only.\<close>

definition writeOnce ::
  "Job \<Rightarrow> string \<times> nat \<times> jsval \<times> jsval \<times> jsval \<times> jsval \<times> jsval" where
  "writeOnce j =
     (jobId j, submittedAt j, organizationUrl j, projectId j, repositoryId j,
      pullRequestId j, iterationId j)"

text \<open>
  \<^verbatim>\<open>randomUUID()\<close> returns an identifier that is not in use: along a run, the identifier
  each request is handed is not yet a key of the map.
\<close>

fun freshIds :: "config \<Rightarrow> state \<Rightarrow> event list \<Rightarrow> bool" where
  "freshIds cfg s [] = True"
| "freshIds cfg s (Request e req # evs) =
     (map_of (jobs s) (uuid e) = None \<and> freshIds cfg (step cfg s (Request e req)) evs)"
| "freshIds cfg s (TimerFires now # evs) = freshIds cfg (step cfg s (TimerFires now)) evs"

subsection \<open>The lifecycle of a job and its timers\<close>

text \<open>The job a callback is closed over.\<close>

fun target :: "callback \<Rightarrow> string" where
  "target (ToProcessing jid) = jid"
| "target (ToTerminal jid) = jid"

text \<open>A configured delay that Node.js does not replace for being too large.\<close>

definition delayInRange :: "config \<Rightarrow> bool" where
  "delayInRange cfg = (case DELAY_MS cfg of None \<Rightarrow> True | Some d \<Rightarrow> d \<le> 2147483647)"

text \<open>\<open>a\<close> is the terminal timer and \<open>b\<close> the processing timer of one job.\<close>

definition outOfOrder :: "timer \<Rightarrow> timer \<Rightarrow> bool" where
  "outOfOrder a b = (callback a = ToTerminal (target (callback b)) \<and>
                     callback b = ToProcessing (target (callback b)))"

text \<open>
  The pending timers: no callback is pending twice, every timer belongs to a stored job,
  and the processing timer of a job was armed before its terminal timer and is due no
  later.
\<close>

definition timersOK :: "state \<Rightarrow> bool" where
  "timersOK s =
     (distinct (map callback (timers s)) \<and>
      list_all (\<lambda>t. map_of (jobs s) (target (callback t)) \<noteq> None) (timers s) \<and>
      sorted_wrt (\<lambda>a b. \<not> outOfOrder a b) (timers s) \<and>
      list_all (\<lambda>a. list_all (\<lambda>b. outOfOrder b a \<longrightarrow> due a \<le> due b) (timers s)) (timers s))"

text \<open>
  A stored job: its nullable fields fit its status, its processing timer is pending
  exactly while it is pending, and its terminal timer exactly until it is terminal.
\<close>

definition jobOK :: "state \<Rightarrow> string \<Rightarrow> Job \<Rightarrow> bool" where
  "jobOK s jid job =
     (jobInvariant job \<and>
      (ToProcessing jid \<in> set (map callback (timers s))) = (status job = Pending) \<and>
      (ToTerminal jid \<in> set (map callback (timers s))) =
        (status job = Pending \<or> status job = Processing))"

definition lifecycleOK :: "state \<Rightarrow> bool" where
  "lifecycleOK s =
     (distinct (map fst (jobs s)) \<and> timersOK s \<and>
      list_all (\<lambda>(jid, job). jobOK s jid job) (jobs s))"

text \<open>The edges of the state machine, and a step of the store that follows them.\<close>

fun statusNext :: "JobStatus \<Rightarrow> JobStatus \<Rightarrow> bool" where
  "statusNext a b =
     (a = b \<or> (a = Pending \<and> b = Processing) \<or>
      (a = Processing \<and> (b = Completed \<or> b = Failed)))"

definition lifecycleStep :: "state \<Rightarrow> state \<Rightarrow> bool" where
  "lifecycleStep s s' =
     (\<forall>k j. map_of (jobs s) k = Some j \<longrightarrow>
        (\<exists>j'. map_of (jobs s') k = Some j' \<and> statusNext (status j) (status j')))"

subsection \<open>Sample inputs\<close>

text \<open>The submission of the scenario in the specification, with the default client key.\<close>

definition sampleBody :: jsval where
  "sampleBody = JObj [
     (''organizationUrl'', JStr ''https://dev.azure.com/acme/''),
     (''projectId'', JStr ''p1''),
     (''repositoryId'', JStr ''r1''),
     (''pullRequestId'', JNum 7),
     (''iterationId'', JNum 1)]"

definition submitRequest :: "jsval option \<Rightarrow> request" where
  "submitRequest b =
     \<lparr> reqMethod = ''POST'', pathname = ''/reviews'', originHeader = None,
       clientKeyHeader = Some ''test-client-key'', parsedBody = b \<rparr>"

definition getRequest :: "string \<Rightarrow> string option \<Rightarrow> request" where
  "getRequest p k =
     \<lparr> reqMethod = ''GET'', pathname = p, originHeader = None,
       clientKeyHeader = k, parsedBody = None \<rparr>"

definition sampleEnv :: "string \<Rightarrow> nat \<Rightarrow> env" where
  "sampleEnv jid t = \<lparr> uuid = jid, dateNow = t, loopNow = t \<rparr>"

text \<open>The job \<^verbatim>\<open>makeJob\<close> creates for the sample submission.\<close>

definition sampleJob :: "string \<Rightarrow> nat \<Rightarrow> Job" where
  "sampleJob jid t =
     \<lparr> jobId = jid, status = Pending,
       organizationUrl = JStr ''https://dev.azure.com/acme/'', projectId = JStr ''p1'',
       repositoryId = JStr ''r1'', pullRequestId = JNum 7, iterationId = JNum 1,
       submittedAt = t, completedAt = None, result = None, error = None \<rparr>"

text \<open>
  A platform on which every certificate is valid until time 1000 and the clock stands at
  0, so that a stored certificate is within the renewal window; the umask is
  \<^verbatim>\<open>0o022\<close> (18).
\<close>

definition samplePlatform :: platform where
  "samplePlatform =
     \<lparr> x509ValidTo = (\<lambda>c. Some 1000), dateNowMs = 0,
       generate = (\<lambda>attrs opts. \<lparr> pemPrivate = ''new-key'', pemCert = ''new-cert'' \<rparr>),
       umask = 18 \<rparr>"

section \<open>Sorting of the job list\<close>

lemma mset_insertBy: "mset (insertBy cmp x ys) = add_mset x (mset ys)"
  by (induction ys) auto

lemma mset_jsSort: "mset (jsSort cmp xs) = mset xs"
  by (induction xs) (auto simp: jsSort_def mset_insertBy)

lemma set_insertBy: "set (insertBy cmp x ys) = insert x (set ys)"
  by (induction ys) auto

lemma localeCompare_le0:
  "(localeCompare a b \<le> 0) = (a \<le> b)"
  by (simp add: localeCompare_def)

lemma sorted_insertBy:
  "sorted_wrt (\<lambda>a b. submittedAt b \<le> submittedAt a) ys \<Longrightarrow>
   sorted_wrt (\<lambda>a b. submittedAt b \<le> submittedAt a)
     (insertBy (\<lambda>a b. localeCompare (submittedAt b) (submittedAt a)) x ys)"
  by (induction ys) (auto simp: localeCompare_le0 set_insertBy)

lemma sorted_jsSort:
  "sorted_wrt (\<lambda>a b. submittedAt b \<le> submittedAt a)
     (jsSort (\<lambda>a b. localeCompare (submittedAt b) (submittedAt a)) xs)"
  by (induction xs) (auto simp: jsSort_def sorted_insertBy)

lemma filter_insertBy:
  "filter (\<lambda>j. submittedAt j = t)
     (insertBy (\<lambda>a b. localeCompare (submittedAt b) (submittedAt a)) x ys) =
   filter (\<lambda>j. submittedAt j = t) (x # ys)"
  by (induction ys) (auto simp: localeCompare_le0)

lemma filter_jsSort:
  "filter (\<lambda>j. submittedAt j = t)
     (jsSort (\<lambda>a b. localeCompare (submittedAt b) (submittedAt a)) xs) =
   filter (\<lambda>j. submittedAt j = t) xs"
  by (induction xs) (auto simp: jsSort_def filter_insertBy)

lemma submittedAt_jobToListItem: "submittedAt (jobToListItem j) = submittedAt j"
  by (simp add: jobToListItem_def)

lemma newest_first:
  fixes xs :: "Job list"
  defines "items \<equiv> map jobToListItem
     (jsSort (\<lambda>a b. localeCompare (submittedAt b) (submittedAt a)) xs)"
  shows "mset items = mset (map jobToListItem xs)"
    and "\<forall>i j. i < length items \<and> j < length items \<and>
           submittedAt (items ! j) < submittedAt (items ! i) \<longrightarrow> i < j"
    and "\<forall>t. filter (\<lambda>x. submittedAt x = t) items =
           map jobToListItem (filter (\<lambda>x. submittedAt x = t) xs)"
proof -
  let ?srt = "jsSort (\<lambda>a b. localeCompare (submittedAt b) (submittedAt a)) xs"
  show "mset items = mset (map jobToListItem xs)"
    by (simp add: items_def mset_jsSort)
  have s: "sorted_wrt (\<lambda>a b. submittedAt b \<le> submittedAt a) items"
    unfolding items_def
    by (simp add: sorted_wrt_map submittedAt_jobToListItem sorted_jsSort)
  show "\<forall>i j. i < length items \<and> j < length items \<and>
           submittedAt (items ! j) < submittedAt (items ! i) \<longrightarrow> i < j"
  proof (intro allI impI, elim conjE)
    fix i j
    assume ij: "i < length items" "j < length items"
      and lt: "submittedAt (items ! j) < submittedAt (items ! i)"
    show "i < j"
    proof (rule ccontr)
      assume "\<not> i < j"
      then have "j = i \<or> j < i" by arith
      then show False
      proof
        assume "j = i"
        with lt show False by simp
      next
        assume "j < i"
        from sorted_wrt_nth_less[OF s this ij(1)] lt show False by simp
      qed
    qed
  qed
  show "\<forall>t. filter (\<lambda>x. submittedAt x = t) items =
           map jobToListItem (filter (\<lambda>x. submittedAt x = t) xs)"
  proof
    fix t
    have "filter (\<lambda>x. submittedAt x = t) items =
          map jobToListItem (filter (\<lambda>x. submittedAt x = t) ?srt)"
      by (simp add: items_def filter_map o_def submittedAt_jobToListItem)
    then show "filter (\<lambda>x. submittedAt x = t) items =
           map jobToListItem (filter (\<lambda>x. submittedAt x = t) xs)"
      by (simp add: filter_jsSort)
  qed
qed


section \<open>The List operation\<close>

text \<open>
  Claim C5. An authenticated \<^verbatim>\<open>GET /reviews\<close> answers 200 with one list item per job of
  the store, in both routers. Whenever one item was submitted later than another, it
  stands before it; and the items of any one submission time stand in the order in which
  their jobs were inserted into the store.
\<close>

theorem list_newest_first:
  assumes "reqMethod req = ''GET''" and "pathname req = ''/reviews''"
    and "clientKeyHeader req = Some (CLIENT_KEY cfg)"
  shows "\<exists>items.
           statusAndBody (fst (handleRequest cfg e req s)) = Some (200, ListBody items) \<and>
           statusAndBody (fst (handleRequest_js cfg e req s)) = Some (200, ListBody items) \<and>
           mset items = mset (map jobToListItem (mapValues (jobs s))) \<and>
           (\<forall>i j. i < length items \<and> j < length items \<and>
              submittedAt (items ! j) < submittedAt (items ! i) \<longrightarrow> i < j) \<and>
           (\<forall>t. filter (\<lambda>x. submittedAt x = t) items =
              map jobToListItem (filter (\<lambda>x. submittedAt x = t) (mapValues (jobs s))))"
proof -
  let ?items = "map jobToListItem
     (jsSort (\<lambda>a b. localeCompare (submittedAt b) (submittedAt a)) (mapValues (jobs s)))"
  have ne: "''GET'' \<noteq> ''OPTIONS''" "''GET'' \<noteq> ''POST''" by simp_all
  have ts: "statusAndBody (fst (handleRequest cfg e req s)) = Some (200, ListBody ?items)"
    using assms ne by (simp add: handleRequest_def Let_def checkAuth_def send_def)
  have js: "statusAndBody (fst (handleRequest_js cfg e req s)) = Some (200, ListBody ?items)"
    using assms ne by (simp add: handleRequest_js_def Let_def checkAuth_def send_def)
  from ts js newest_first[of "mapValues (jobs s)"] show ?thesis by blast
qed

text \<open>
  Three jobs submitted at times 5, 7 and 5 are listed as the second, the first and the
  third.
\<close>

theorem list_newest_first_example:
  "reqMethod (getRequest ''/reviews'' (Some ''test-client-key'')) = ''GET'' \<and>
   pathname (getRequest ''/reviews'' (Some ''test-client-key'')) = ''/reviews'' \<and>
   clientKeyHeader (getRequest ''/reviews'' (Some ''test-client-key'')) =
     Some (CLIENT_KEY defaultConfig) \<and>
   (\<exists>items.
      statusAndBody (fst (handleRequest defaultConfig (sampleEnv ''x'' 9)
        (getRequest ''/reviews'' (Some ''test-client-key''))
        (run defaultConfig initialState
           [Request (sampleEnv ''a'' 5) (submitRequest (Some sampleBody)),
            Request (sampleEnv ''b'' 7) (submitRequest (Some sampleBody)),
            Request (sampleEnv ''c'' 5) (submitRequest (Some sampleBody))]))) =
        Some (200, ListBody items) \<and>
      map jobId items = [''b'', ''a'', ''c''])"
proof -
  have h: "reqMethod (getRequest ''/reviews'' (Some ''test-client-key'')) = ''GET''"
    "pathname (getRequest ''/reviews'' (Some ''test-client-key'')) = ''/reviews''"
    "clientKeyHeader (getRequest ''/reviews'' (Some ''test-client-key'')) =
       Some (CLIENT_KEY defaultConfig)"
    by (simp_all add: getRequest_def defaultConfig_def)
  from list_newest_first[OF h, of "sampleEnv ''x'' 9"
      "run defaultConfig initialState
           [Request (sampleEnv ''a'' 5) (submitRequest (Some sampleBody)),
            Request (sampleEnv ''b'' 7) (submitRequest (Some sampleBody)),
            Request (sampleEnv ''c'' 5) (submitRequest (Some sampleBody))]"]
  obtain items where it:
    "statusAndBody (fst (handleRequest defaultConfig (sampleEnv ''x'' 9)
        (getRequest ''/reviews'' (Some ''test-client-key''))
        (run defaultConfig initialState
           [Request (sampleEnv ''a'' 5) (submitRequest (Some sampleBody)),
            Request (sampleEnv ''b'' 7) (submitRequest (Some sampleBody)),
            Request (sampleEnv ''c'' 5) (submitRequest (Some sampleBody))]))) =
        Some (200, ListBody items)" by (elim exE conjE)
  from it have "map jobId items = [''b'', ''a'', ''c'']"
    by (auto simp add: run_def handleRequest_def Let_def checkAuth_def readBody_def required_def
        makeJob_def scheduleJob_def setTimeout_def initialState_def defaultConfig_def
        mapValues_def send_def getRequest_def submitRequest_def sampleEnv_def sampleBody_def
        jsSort_def localeCompare_def jobToListItem_def)
  with it have "\<exists>items.
      statusAndBody (fst (handleRequest defaultConfig (sampleEnv ''x'' 9)
        (getRequest ''/reviews'' (Some ''test-client-key''))
        (run defaultConfig initialState
           [Request (sampleEnv ''a'' 5) (submitRequest (Some sampleBody)),
            Request (sampleEnv ''b'' 7) (submitRequest (Some sampleBody)),
            Request (sampleEnv ''c'' 5) (submitRequest (Some sampleBody))]))) =
        Some (200, ListBody items) \<and>
      map jobId items = [''b'', ''a'', ''c'']"
    by (intro exI[of _ items] conjI)
  with h show ?thesis by (intro conjI)
qed

section \<open>Authentication\<close>

text \<open>
  Claim C4. A request to one of the three job operations that is no preflight and does
  not carry exactly the configured key in \<^verbatim>\<open>X-Client-Key\<close> (the header is absent or
  differs) is answered 401 by both routers; the message names the expected key; and the
  process state, the job store and the timers alike, is what it was.
\<close>

theorem unauthenticated_request_rejected:
  assumes "reqMethod req \<noteq> ''OPTIONS''" and "isJobOperation req"
    and "clientKeyHeader req \<noteq> Some (CLIENT_KEY cfg)"
  shows "statusAndBody (fst (handleRequest cfg e req s)) =
           Some (401, ErrorBody
             (''Invalid or missing X-Client-Key. Expected: \"'' @ CLIENT_KEY cfg @ ''\"'')) \<and>
         snd (handleRequest cfg e req s) = s \<and>
         statusAndBody (fst (handleRequest_js cfg e req s)) =
           Some (401, ErrorBody
             (''Invalid or missing X-Client-Key. Expected: \"'' @ CLIENT_KEY cfg @ ''\"'')) \<and>
         snd (handleRequest_js cfg e req s) = s"
  using assms
  by (auto simp: handleRequest_def handleRequest_js_def isJobOperation_def Let_def
      checkAuth_def send_def)

text \<open>The sample submission without the header creates no job.\<close>

theorem unauthenticated_submit_example:
  "reqMethod ((submitRequest (Some sampleBody))\<lparr> clientKeyHeader := None \<rparr>) \<noteq> ''OPTIONS'' \<and>
   isJobOperation ((submitRequest (Some sampleBody))\<lparr> clientKeyHeader := None \<rparr>) \<and>
   clientKeyHeader ((submitRequest (Some sampleBody))\<lparr> clientKeyHeader := None \<rparr>) \<noteq>
     Some (CLIENT_KEY defaultConfig) \<and>
   statusAndBody (fst (handleRequest defaultConfig (sampleEnv ''a'' 5)
      ((submitRequest (Some sampleBody))\<lparr> clientKeyHeader := None \<rparr>) initialState)) =
     Some (401, ErrorBody ''Invalid or missing X-Client-Key. Expected: \"test-client-key\"'') \<and>
   snd (handleRequest defaultConfig (sampleEnv ''a'' 5)
      ((submitRequest (Some sampleBody))\<lparr> clientKeyHeader := None \<rparr>) initialState) =
     initialState"
proof -
  have h: "reqMethod ((submitRequest (Some sampleBody))\<lparr> clientKeyHeader := None \<rparr>) \<noteq> ''OPTIONS''"
    "isJobOperation ((submitRequest (Some sampleBody))\<lparr> clientKeyHeader := None \<rparr>)"
    "clientKeyHeader ((submitRequest (Some sampleBody))\<lparr> clientKeyHeader := None \<rparr>) \<noteq>
       Some (CLIENT_KEY defaultConfig)"
    by (simp_all add: submitRequest_def isJobOperation_def)
  have k: "CLIENT_KEY defaultConfig = ''test-client-key''"
    by (simp add: defaultConfig_def)
  from unauthenticated_request_rejected[OF h, of "sampleEnv ''a'' 5" initialState] h
  show ?thesis unfolding k by simp
qed

section \<open>The two routers\<close>

lemma makeJob_pullRequestId:
  "makeJob cfg e b s = Inr (job, s') \<Longrightarrow> getField b PullRequestId = Inr (pullRequestId job)"
  by (auto simp: makeJob_def Let_def split: sum.splits)

text \<open>
  Claim C9. For every request, hence for every request to one of the three job
  operations, under the same configuration, environment and state, the router of
  \<^verbatim>\<open>backend.ts\<close> and the router of the plain-HTTP file answer with the same status code
  and the same JSON body, or both leave the request unanswered, and they leave the
  same state behind. Only the response headers differ.
\<close>

theorem routers_agree:
  "statusAndBody (fst (handleRequest cfg e req s)) =
     statusAndBody (fst (handleRequest_js cfg e req s)) \<and>
   snd (handleRequest cfg e req s) = snd (handleRequest_js cfg e req s)"
  by (auto simp: handleRequest_def handleRequest_js_def Let_def checkAuth_def send_def
      dest!: makeJob_pullRequestId split: option.splits sum.splits)

section \<open>Certificate reuse and renewal\<close>

text \<open>
  \<^verbatim>\<open>loadOrGenerateCert\<close> returns the stored pair and writes nothing exactly when both
  files exist, the certificate parses and its \<^verbatim>\<open>validTo\<close> is later than now plus 30
  days. In every other case it calls \<^verbatim>\<open>selfsigned.generate\<close> for a 2048-bit key,
  SHA-256, 365 days and the alternative names \<^verbatim>\<open>localhost\<close> and \<^verbatim>\<open>127.0.0.1\<close>,
  returns the generated pair, and writes the certificate and the key, each with the
  option \<^verbatim>\<open>mode: 0o600\<close>.
\<close>

lemma certificate_reused_or_regenerated:
  "loadOrGenerateCert pf fs =
     (if \<exists>c k v. fs CERT_FILE = Some c \<and> fs KEY_FILE = Some k \<and>
                  x509ValidTo pf (fileData c) = Some v \<and>
                  dateNowMs pf + 30 * 24 * 60 * 60 * 1000 < v
      then (\<lparr> cert = fileData (the (fs CERT_FILE)), key = fileData (the (fs KEY_FILE)) \<rparr>, fs)
      else (let p = generate pf [(''commonName'', ''localhost'')]
                      \<lparr> keySize = 2048, days = 365, algorithm = ''sha256'',
                        altNames = [DnsName ''localhost'', IpAddress ''127.0.0.1''] \<rparr>
            in (\<lparr> cert = pemCert p, key = pemPrivate p \<rparr>,
                writeFileSync (umask pf)
                  (writeFileSync (umask pf) fs CERT_FILE (pemCert p) 384)
                  KEY_FILE (pemPrivate p) 384)))"
  by (auto simp: loadOrGenerateCert_def reuseCert_def RENEW_BEFORE_DAYS_def ownerOnly_def Let_def
      split: option.splits)

text \<open>
  A file that the function creates gets the mode \<^verbatim>\<open>0o600\<close> less the umask; a file that
  it rewrites keeps its mode.
\<close>

lemma written_file_mode:
  "map_option fileMode (writeFileSync um fs path d m path) =
     Some (case fs path of None \<Rightarrow> m - Bit_Operations.and m um | Some f \<Rightarrow> fileMode f)"
  by (simp add: writeFileSync_def split: option.splits)

lemma created_files_mode:
  assumes "fs CERT_FILE = None" and "fs KEY_FILE = None"
  shows "map_option fileMode (snd (loadOrGenerateCert pf fs) CERT_FILE) =
           Some (384 - Bit_Operations.and 384 (umask pf)) \<and>
         map_option fileMode (snd (loadOrGenerateCert pf fs) KEY_FILE) =
           Some (384 - Bit_Operations.and 384 (umask pf))"
  using assms
  by (simp add: loadOrGenerateCert_def Let_def writeFileSync_def ownerOnly_def
      CERT_FILE_def KEY_FILE_def)

text \<open>
  Claim C7. Both files exist with mode \<^verbatim>\<open>0o644\<close> (420) and the certificate is within
  the renewal window. A fresh pair is generated and written over the two files, and both
  keep the mode \<^verbatim>\<open>0o644\<close>: the new private key can be read by group and others, where
  the claim has both artifacts written with owner-only permissions.
\<close>

theorem rewritten_files_keep_their_mode:
  "fst (loadOrGenerateCert samplePlatform
     [CERT_FILE \<mapsto> \<lparr> fileData = ''old-cert'', fileMode = 420 \<rparr>,
      KEY_FILE \<mapsto> \<lparr> fileData = ''old-key'', fileMode = 420 \<rparr>]) =
     \<lparr> cert = ''new-cert'', key = ''new-key'' \<rparr> \<and>
   snd (loadOrGenerateCert samplePlatform
     [CERT_FILE \<mapsto> \<lparr> fileData = ''old-cert'', fileMode = 420 \<rparr>,
      KEY_FILE \<mapsto> \<lparr> fileData = ''old-key'', fileMode = 420 \<rparr>]) CERT_FILE =
     Some \<lparr> fileData = ''new-cert'', fileMode = 420 \<rparr> \<and>
   snd (loadOrGenerateCert samplePlatform
     [CERT_FILE \<mapsto> \<lparr> fileData = ''old-cert'', fileMode = 420 \<rparr>,
      KEY_FILE \<mapsto> \<lparr> fileData = ''old-key'', fileMode = 420 \<rparr>]) KEY_FILE =
     Some \<lparr> fileData = ''new-key'', fileMode = 420 \<rparr>"
  by (simp add: loadOrGenerateCert_def reuseCert_def RENEW_BEFORE_DAYS_def Let_def
      writeFileSync_def samplePlatform_def CERT_FILE_def KEY_FILE_def)

section \<open>The scheduled transitions\<close>

text \<open>
  With a total delay \<open>d\<close> configured, \<^verbatim>\<open>scheduleJob\<close> arms two timers: the first with
  the argument \<open>min 2000 (d \<times> 0.33)\<close>, whose callback sets the status of the job to
  processing and does nothing when the job is not in the store; the second with the
  argument \<open>d\<close> (6000 by default), whose callback makes the job failed with the
  explanatory message when the simulation mode is \<^verbatim>\<open>fail\<close>, and completed with the fixed
  result otherwise, and stamps \<^verbatim>\<open>completedAt\<close> with the time of firing in both cases.
  Each timer is due after the delay Node.js makes of its argument.
\<close>

lemma scheduled_transitions:
  assumes "DELAY_MS cfg = Some d" and "map_of (jobs s) jid = Some job"
  shows "timers (scheduleJob cfg e jid s) = timers s @
           [\<lparr> requested = Some (min 2000 (of_int d * (33 / 100))),
              due = loopNow e + nodeDelay (Some (min 2000 (of_int d * (33 / 100)))),
              callback = ToProcessing jid \<rparr>,
            \<lparr> requested = Some (of_int d),
              due = loopNow e + nodeDelay (Some (of_int d)),
              callback = ToTerminal jid \<rparr>] \<and>
         DELAY_MS defaultConfig = Some 6000 \<and>
         map_of (jobs (runCallback cfg now (ToProcessing jid) s)) =
           (map_of (jobs s))(jid \<mapsto> job\<lparr> status := Processing \<rparr>) \<and>
         (\<forall>s'. map_of (jobs s') jid = None \<longrightarrow>
            runCallback cfg now (ToProcessing jid) s' = s') \<and>
         (SIMULATE cfg = ''fail'' \<longrightarrow>
            map_of (jobs (runCallback cfg now (ToTerminal jid) s)) =
              (map_of (jobs s))(jid \<mapsto>
                job\<lparr> status := Failed, error := Some MOCK_FAIL_ERROR, completedAt := Some now \<rparr>)) \<and>
         (SIMULATE cfg \<noteq> ''fail'' \<longrightarrow>
            map_of (jobs (runCallback cfg now (ToTerminal jid) s)) =
              (map_of (jobs s))(jid \<mapsto>
                job\<lparr> status := Completed, result := Some MOCK_SUCCESS_RESULT,
                     completedAt := Some now \<rparr>)) \<and>
         MOCK_FAIL_ERROR \<noteq> []"
  using assms
  by (simp add: scheduleJob_def setTimeout_def processingDelay_def defaultConfig_def
      update_conv' MOCK_FAIL_ERROR_def)

text \<open>
  With the default configuration the timers are armed for 1980 and 6000 milliseconds.
\<close>

lemma scheduled_transitions_example:
  "DELAY_MS defaultConfig = Some 6000 \<and>
   map_of (jobs \<lparr> jobs = [(''a'', sampleJob ''a'' 5)], timers = [] \<rparr>) ''a'' =
     Some (sampleJob ''a'' 5) \<and>
   timers (scheduleJob defaultConfig (sampleEnv ''a'' 5) ''a''
     \<lparr> jobs = [(''a'', sampleJob ''a'' 5)], timers = [] \<rparr>) =
     [\<lparr> requested = Some 1980, due = 1985, callback = ToProcessing ''a'' \<rparr>,
      \<lparr> requested = Some 6000, due = 6005, callback = ToTerminal ''a'' \<rparr>] \<and>
   map_of (jobs (runCallback defaultConfig 6100 (ToTerminal ''a'')
     \<lparr> jobs = [(''a'', sampleJob ''a'' 5)], timers = [] \<rparr>)) ''a'' =
     Some ((sampleJob ''a'' 5)\<lparr> status := Completed, result := Some MOCK_SUCCESS_RESULT,
        completedAt := Some 6100 \<rparr>)"
proof -
  have h: "DELAY_MS defaultConfig = Some 6000"
    "map_of (jobs \<lparr> jobs = [(''a'', sampleJob ''a'' 5)], timers = [] \<rparr>) ''a'' =
       Some (sampleJob ''a'' 5)"
    by (simp_all add: defaultConfig_def)
  have n: "SIMULATE defaultConfig \<noteq> ''fail''" "loopNow (sampleEnv ''a'' 5) = 5"
    by (simp_all add: defaultConfig_def sampleEnv_def)
  from scheduled_transitions[OF h, of "sampleEnv ''a'' 5" 6100] n h
  show ?thesis by (simp add: TIMEOUT_MAX_def)
qed

section \<open>Write-once fields\<close>

lemma jobs_setTimeout: "jobs (setTimeout e cb d s) = jobs s"
  by (simp add: setTimeout_def)

lemma jobs_scheduleJob: "jobs (scheduleJob cfg e jid s) = jobs s"
  by (simp add: scheduleJob_def jobs_setTimeout)

lemma makeJob_jobs:
  "makeJob cfg e b s = Inr (job, s') \<Longrightarrow> jobs s' = AList.update (uuid e) job (jobs s)"
  by (auto simp: makeJob_def Let_def jobs_scheduleJob split: sum.splits)

lemma runCallback_frame:
  assumes "map_of (jobs s) k = Some j"
  shows "\<exists>j'. map_of (jobs (runCallback cfg now cb s)) k = Some j' \<and> writeOnce j' = writeOnce j"
proof (cases cb)
  case (ToProcessing jid)
  then show ?thesis using assms
    by (cases "map_of (jobs s) jid") (auto simp: update_conv' writeOnce_def)
next
  case (ToTerminal jid)
  then show ?thesis using assms
    by (cases "map_of (jobs s) jid") (auto simp: update_conv' writeOnce_def)
qed

lemma fireNext_frame:
  assumes "map_of (jobs s) k = Some j"
  shows "\<exists>j'. map_of (jobs (fireNext cfg now s)) k = Some j' \<and> writeOnce j' = writeOnce j"
proof (cases "earliest (timers s)")
  case None
  then show ?thesis using assms by (simp add: fireNext_def)
next
  case (Some t)
  have "map_of (jobs (s\<lparr>timers := remove1 t (timers s)\<rparr>)) k = Some j"
    using assms by simp
  from runCallback_frame[OF this] Some show ?thesis
    by (simp add: fireNext_def)
qed

lemma handleRequest_jobs:
  "snd (handleRequest cfg e req s) = s \<or>
   (\<exists>job. jobs (snd (handleRequest cfg e req s)) = AList.update (uuid e) job (jobs s))"
  by (auto simp: handleRequest_def Let_def dest: makeJob_jobs split: option.splits sum.splits)

lemma handleRequest_frame:
  assumes "map_of (jobs s) k = Some j" and "map_of (jobs s) (uuid e) = None"
  shows "map_of (jobs (snd (handleRequest cfg e req s))) k = Some j"
  using handleRequest_jobs[of cfg e req s] assms
  by (auto simp: update_conv')

lemma freshIds_Cons:
  "freshIds cfg s (ev # evs) \<Longrightarrow> freshIds cfg s [ev] \<and> freshIds cfg (step cfg s ev) evs"
  by (cases ev) auto

lemma step_frame:
  assumes "map_of (jobs s) k = Some j" and "freshIds cfg s [ev]"
  shows "\<exists>j'. map_of (jobs (step cfg s ev)) k = Some j' \<and> writeOnce j' = writeOnce j"
proof (cases ev)
  case (Request e req)
  then show ?thesis using assms handleRequest_frame[of s k j e cfg req] by simp
next
  case (TimerFires now)
  then show ?thesis using assms fireNext_frame[of s k j cfg now] by simp
qed

text \<open>
  Claim C8. Along every run in which each request is handed an unused identifier, a job
  that is in the store stays in the store under its key, and its \<^verbatim>\<open>jobId\<close>,
  \<^verbatim>\<open>submittedAt\<close> and five request fields keep their values: requests and the two timer
  callbacks change at most \<^verbatim>\<open>status\<close>, \<^verbatim>\<open>completedAt\<close>, \<^verbatim>\<open>result\<close> and
  \<^verbatim>\<open>error\<close> of a stored job, and nothing removes one.
\<close>

theorem write_once_fields:
  assumes "freshIds cfg s evs" and "map_of (jobs s) k = Some j"
  shows "\<exists>j'. map_of (jobs (run cfg s evs)) k = Some j' \<and> writeOnce j' = writeOnce j"
  using assms
proof (induction evs arbitrary: s j)
  case Nil
  then show ?case by (simp add: run_def)
next
  case (Cons ev evs)
  from Cons.prems(1) have f1: "freshIds cfg s [ev]" and f2: "freshIds cfg (step cfg s ev) evs"
    using freshIds_Cons by blast+
  from step_frame[OF Cons.prems(2) f1] obtain j1 where
    j1: "map_of (jobs (step cfg s ev)) k = Some j1" "writeOnce j1 = writeOnce j" by blast
  from Cons.IH[OF f2 j1(1)] j1(2) show ?case by (simp add: run_def)
qed

text \<open>
  A stored job keeps its fields while another job is submitted and two timers fire.
\<close>

theorem write_once_fields_example:
  "freshIds defaultConfig \<lparr> jobs = [(''a'', sampleJob ''a'' 5)], timers = [] \<rparr>
     [Request (sampleEnv ''b'' 10) (submitRequest (Some sampleBody)),
      TimerFires 2000, TimerFires 6100] \<and>
   map_of (jobs \<lparr> jobs = [(''a'', sampleJob ''a'' 5)], timers = [] \<rparr>) ''a'' =
     Some (sampleJob ''a'' 5) \<and>
   (\<exists>j'. map_of (jobs (run defaultConfig \<lparr> jobs = [(''a'', sampleJob ''a'' 5)], timers = [] \<rparr>
       [Request (sampleEnv ''b'' 10) (submitRequest (Some sampleBody)),
        TimerFires 2000, TimerFires 6100])) ''a'' = Some j' \<and>
     writeOnce j' = writeOnce (sampleJob ''a'' 5))"
proof -
  have h: "freshIds defaultConfig \<lparr> jobs = [(''a'', sampleJob ''a'' 5)], timers = [] \<rparr>
     [Request (sampleEnv ''b'' 10) (submitRequest (Some sampleBody)),
      TimerFires 2000, TimerFires 6100]"
    "map_of (jobs \<lparr> jobs = [(''a'', sampleJob ''a'' 5)], timers = [] \<rparr>) ''a'' =
     Some (sampleJob ''a'' 5)"
    by (simp_all add: sampleEnv_def)
  from write_once_fields[OF h] h show ?thesis by (intro conjI)
qed

section \<open>Submission\<close>

text \<open>The equations that evaluate a run on concrete inputs.\<close>

lemmas run_simps = run_def handleRequest_def handleRequest_js_def Let_def checkAuth_def
  readBody_def required_def makeJob_def scheduleJob_def setTimeout_def initialState_def
  defaultConfig_def mapValues_def send_def getRequest_def submitRequest_def sampleEnv_def
  sampleBody_def processingDelay_def fireNext_def TIMEOUT_MAX_def sampleJob_def

text \<open>
  For a body other than \<^verbatim>\<open>null\<close>, validation answers 422 and names the fields that
  are null or absent, in their fixed order, and creates nothing; a body that does not
  parse counts as the empty object. When no field is null or absent and the pull request
  id converts to a string, the answer is 202 with the new id, the job holds the five
  values as they came, and Get and List show it.
\<close>

lemma getField_fieldValue:
  "b \<noteq> JNull \<Longrightarrow> b \<noteq> JUndefined \<Longrightarrow> getField b k = Inr (fieldValue b k)"
  by (cases b) (simp_all add: fieldValue_def)

lemma filterMissing_filter:
  "b \<noteq> JNull \<Longrightarrow> b \<noteq> JUndefined \<Longrightarrow>
   filterMissing b ks = Inr (filter (\<lambda>k. looseEqNull (fieldValue b k)) ks)"
  by (induction ks) (simp_all add: getField_fieldValue)

lemma makeJob_created:
  assumes "b \<noteq> JNull" and "b \<noteq> JUndefined"
  shows "makeJob cfg e b s =
     Inr (\<lparr> jobId = uuid e, status = Pending,
            organizationUrl = fieldValue b OrganizationUrl,
            projectId = fieldValue b ProjectId, repositoryId = fieldValue b RepositoryId,
            pullRequestId = fieldValue b PullRequestId, iterationId = fieldValue b IterationId,
            submittedAt = dateNow e, completedAt = None, result = None, error = None \<rparr>,
          scheduleJob cfg e (uuid e)
            (s\<lparr> jobs := AList.update (uuid e)
               \<lparr> jobId = uuid e, status = Pending,
                 organizationUrl = fieldValue b OrganizationUrl,
                 projectId = fieldValue b ProjectId, repositoryId = fieldValue b RepositoryId,
                 pullRequestId = fieldValue b PullRequestId,
                 iterationId = fieldValue b IterationId,
                 submittedAt = dateNow e, completedAt = None, result = None, error = None \<rparr>
               (jobs s) \<rparr>))"
  using assms by (simp add: makeJob_def getField_fieldValue Let_def)

lemma submit_missing_fields:
  assumes "reqMethod req = ''POST''" and "pathname req = ''/reviews''"
    and "clientKeyHeader req = Some (CLIENT_KEY cfg)"
    and "readBody req \<noteq> JNull" and "readBody req \<noteq> JUndefined"
    and "filter (\<lambda>k. looseEqNull (fieldValue (readBody req) k)) required \<noteq> []"
  shows "statusAndBody (fst (handleRequest cfg e req s)) =
           Some (422, ErrorBody (''Missing required fields: '' @
             joinFields (filter (\<lambda>k. looseEqNull (fieldValue (readBody req) k)) required))) \<and>
         snd (handleRequest cfg e req s) = s"
proof -
  have ne: "''POST'' \<noteq> ''OPTIONS''" by simp
  show ?thesis
    using assms ne
    by (simp add: handleRequest_def Let_def checkAuth_def send_def filterMissing_filter)
qed

lemma unparseable_body_is_empty_object:
  assumes "parsedBody req = None"
  shows "readBody req = JObj [] \<and>
         filter (\<lambda>k. looseEqNull (fieldValue (readBody req) k)) required = required"
  using assms by (simp add: readBody_def required_def fieldValue_def)

lemma submit_accepted:
  assumes "reqMethod req = ''POST''" and "pathname req = ''/reviews''"
    and "clientKeyHeader req = Some (CLIENT_KEY cfg)"
    and "readBody req \<noteq> JNull" and "readBody req \<noteq> JUndefined"
    and "filter (\<lambda>k. looseEqNull (fieldValue (readBody req) k)) required = []"
    and "\<not> toStringThrows (fieldValue (readBody req) PullRequestId)"
  shows "statusAndBody (fst (handleRequest cfg e req s)) = Some (202, JobIdBody (uuid e)) \<and>
         map_of (jobs (snd (handleRequest cfg e req s))) (uuid e) =
           Some \<lparr> jobId = uuid e, status = Pending,
                  organizationUrl = fieldValue (readBody req) OrganizationUrl,
                  projectId = fieldValue (readBody req) ProjectId,
                  repositoryId = fieldValue (readBody req) RepositoryId,
                  pullRequestId = fieldValue (readBody req) PullRequestId,
                  iterationId = fieldValue (readBody req) IterationId,
                  submittedAt = dateNow e, completedAt = None, result = None, error = None \<rparr>"
proof -
  have ne: "''POST'' \<noteq> ''OPTIONS''" by simp
  show ?thesis
    using assms ne
    by (simp add: handleRequest_def Let_def checkAuth_def send_def filterMissing_filter
        makeJob_created jobs_scheduleJob update_conv')
qed

lemma pollMatch_id:
  "jid \<noteq> [] \<Longrightarrow> CHR ''/'' \<notin> set jid \<Longrightarrow> pollMatch (''/reviews/'' @ jid) = Some jid"
  by (simp add: pollMatch_def stripPrefix_def)

lemma stored_job_observable:
  assumes "map_of (jobs s) jid = Some job" and "jid \<noteq> []" and "CHR ''/'' \<notin> set jid"
    and "clientKeyHeader req = Some (CLIENT_KEY cfg)" and "reqMethod req = ''GET''"
  shows "pathname req = ''/reviews/'' @ jid \<Longrightarrow>
           statusAndBody (fst (handleRequest cfg e req s)) =
             Some (200, StatusBody (jobToStatusResponse job))"
    and "pathname req = ''/reviews'' \<Longrightarrow>
           \<exists>items. statusAndBody (fst (handleRequest cfg e req s)) = Some (200, ListBody items) \<and>
                   jobToListItem job \<in> set items"
proof -
  have ne: "''GET'' \<noteq> ''OPTIONS''" "''GET'' \<noteq> ''POST''" by simp_all
  have p: "''/reviews/'' @ jid \<noteq> ''/reviews''" using assms(2) by simp
  show "pathname req = ''/reviews/'' @ jid \<Longrightarrow>
           statusAndBody (fst (handleRequest cfg e req s)) =
             Some (200, StatusBody (jobToStatusResponse job))"
    using assms ne p pollMatch_id[OF assms(2,3)]
    by (simp add: handleRequest_def Let_def checkAuth_def send_def del: append.simps)
  have "job \<in> set (mapValues (jobs s))"
    using assms(1) by (force simp: mapValues_def dest: map_of_SomeD)
  then have "jobToListItem job \<in> set (map jobToListItem
      (jsSort (\<lambda>a b. localeCompare (submittedAt b) (submittedAt a)) (mapValues (jobs s))))"
    by (simp add: mset_jsSort[THEN mset_eq_setD])
  then show "pathname req = ''/reviews'' \<Longrightarrow>
           \<exists>items. statusAndBody (fst (handleRequest cfg e req s)) = Some (200, ListBody items) \<and>
                   jobToListItem job \<in> set items"
    using assms ne
    by (simp add: handleRequest_def Let_def checkAuth_def send_def)
qed

text \<open>
  Claim C3. An authenticated \<^verbatim>\<open>POST /reviews\<close> whose body is the JSON text
  \<^verbatim>\<open>null\<close> parses, so it is not replaced by the empty object; reading the first
  required property of \<^verbatim>\<open>null\<close> throws, and the request gets no response at all, from
  either router, where a 422 naming all five fields is due.
\<close>

theorem null_body_leaves_request_unanswered:
  "handleRequest defaultConfig (sampleEnv ''a'' 5) (submitRequest (Some JNull)) initialState =
     (Unhandled TypeError, initialState) \<and>
   handleRequest_js defaultConfig (sampleEnv ''a'' 5) (submitRequest (Some JNull)) initialState =
     (Unhandled TypeError, initialState)"
  by (simp add: run_simps)

text \<open>
  Claim C10. A body whose five required keys are all present and non-null, with the
  object \<^verbatim>\<open>{"toString": 0}\<close> as \<^verbatim>\<open>pullRequestId\<close>, passes validation and the job is
  created and stored; the log line that follows converts the pull request id to a
  string, which throws, and the request gets no response from either router, where a 202
  is due.
\<close>

theorem unprintable_pull_request_id_leaves_request_unanswered:
  "fst (handleRequest defaultConfig (sampleEnv ''a'' 5)
     (submitRequest (Some (JObj [
        (''organizationUrl'', JStr ''https://dev.azure.com/acme/''),
        (''projectId'', JStr ''p1''),
        (''repositoryId'', JStr ''r1''),
        (''pullRequestId'', JObj [(''toString'', JNum 0)]),
        (''iterationId'', JNum 1)]))) initialState) = Unhandled TypeError \<and>
   fst (handleRequest_js defaultConfig (sampleEnv ''a'' 5)
     (submitRequest (Some (JObj [
        (''organizationUrl'', JStr ''https://dev.azure.com/acme/''),
        (''projectId'', JStr ''p1''),
        (''repositoryId'', JStr ''r1''),
        (''pullRequestId'', JObj [(''toString'', JNum 0)]),
        (''iterationId'', JNum 1)]))) initialState) = Unhandled TypeError \<and>
   map fst (jobs (snd (handleRequest defaultConfig (sampleEnv ''a'' 5)
     (submitRequest (Some (JObj [
        (''organizationUrl'', JStr ''https://dev.azure.com/acme/''),
        (''projectId'', JStr ''p1''),
        (''repositoryId'', JStr ''r1''),
        (''pullRequestId'', JObj [(''toString'', JNum 0)]),
        (''iterationId'', JNum 1)]))) initialState))) = [''a'']"
  by (simp add: run_simps)

section \<open>Order of the two timers\<close>

text \<open>
  The timer of the first transition is due no later than the timer of the second exactly
  when the configured delay is at most \<open>2\<^sup>3\<^sup>1 - 1\<close>: a larger delay is set to 1 by
  Node.js, while the first timer waits 2000 milliseconds.
\<close>

lemma timer_order:
  assumes "DELAY_MS cfg = Some d"
  shows "(nodeDelay (processingDelay cfg) \<le> nodeDelay (map_option of_int (DELAY_MS cfg))) =
         (d \<le> 2147483647)"
proof (cases "d \<le> 2147483647")
  case False
  then have "(2147483647::rat) < of_int d" "\<not> (of_int d :: rat) < 1"
    by linarith+
  then have "(2000::rat) \<le> of_int d * (33 / 100)" by linarith
  then have "min 2000 (of_int d * (33 / 100) :: rat) = 2000" by simp
  with assms False \<open>(2147483647::rat) < of_int d\<close> show ?thesis
    by (simp add: processingDelay_def TIMEOUT_MAX_def)
next
  case True
  show ?thesis
  proof (cases "d < 1")
    case True
    then have "(of_int d :: rat) < 1" by linarith
    then have "min 2000 (of_int d * (33 / 100) :: rat) < 1" by linarith
    with assms \<open>d \<le> 2147483647\<close> \<open>(of_int d :: rat) < 1\<close> show ?thesis
      by (simp add: processingDelay_def TIMEOUT_MAX_def)
  next
    case False
    then have d1: "1 \<le> d" by simp
    then have r1: "\<not> (of_int d :: rat) < 1" "\<not> (2147483647::rat) < of_int d"
      using True by linarith+
    let ?p = "min 2000 (of_int d * (33 / 100) :: rat)"
    have "?p \<le> of_int d" using d1 by (simp add: min_def)
    then have "\<lfloor>?p\<rfloor> \<le> d" by (metis floor_mono floor_of_int)
    moreover have "?p \<le> 2147483647" by simp
    ultimately show ?thesis using assms True r1 d1
      by (auto simp: processingDelay_def TIMEOUT_MAX_def)
  qed
qed

section \<open>The lifecycle along a run\<close>

text \<open>
  While the configured delay is in range and identifiers are fresh, every turn of the
  event loop of this model, which fires timers strictly by due time, keeps the timers and
  the jobs consistent, and moves the status of a stored job along an edge of the state
  machine or not at all.
\<close>

lemma earliest_None: "(earliest ts = None) = (ts = [])"
  by (induction ts) (auto split: option.splits)

lemma earliest_split:
  "earliest ts = Some t \<Longrightarrow>
   \<exists>xs ys. ts = xs @ t # ys \<and> (\<forall>u\<in>set xs. due t < due u) \<and> (\<forall>u\<in>set ys. due t \<le> due u)"
proof (induction ts arbitrary: t)
  case Nil
  then show ?case by simp
next
  case (Cons a rest)
  show ?case
  proof (cases "earliest rest")
    case None
    then have "rest = []" by (simp add: earliest_None)
    with Cons.prems have "a # rest = [] @ t # []" by simp
    then show ?thesis by (metis empty_iff empty_set)
  next
    case (Some u)
    from Cons.IH[OF Some] obtain xs ys where
      r: "rest = xs @ u # ys" "\<forall>v\<in>set xs. due u < due v" "\<forall>v\<in>set ys. due u \<le> due v"
      by blast
    show ?thesis
    proof (cases "due a \<le> due u")
      case True
      with Cons.prems Some have "t = a" by simp
      moreover have "\<forall>v\<in>set rest. due a \<le> due v"
        using r True by auto
      ultimately have "a # rest = [] @ t # rest \<and> (\<forall>v\<in>set []. due t < due v) \<and>
        (\<forall>v\<in>set rest. due t \<le> due v)" by simp
      then show ?thesis by blast
    next
      case False
      with Cons.prems Some have "t = u" by simp
      with r False have "a # rest = (a # xs) @ t # ys \<and> (\<forall>v\<in>set (a # xs). due t < due v) \<and>
        (\<forall>v\<in>set ys. due t \<le> due v)" by auto
      then show ?thesis by blast
    qed
  qed
qed

lemma earliest_mem: "earliest ts = Some t \<Longrightarrow> t \<in> set ts"
  using earliest_split by fastforce

lemma terminal_not_earliest:
  assumes "sorted_wrt (\<lambda>a b. \<not> outOfOrder a b) ts" and "earliest ts = Some t"
    and "u \<in> set ts" and "outOfOrder t u" and "due u \<le> due t"
  shows False
proof -
  from earliest_split[OF assms(2)] obtain xs ys where
    sp: "ts = xs @ t # ys" "\<forall>v\<in>set xs. due t < due v" by blast
  have "u \<noteq> t" using assms(4) by (metis callback.distinct(1) outOfOrder_def)
  moreover have "u \<notin> set xs" using sp(2) assms(5) by auto
  ultimately have "u \<in> set ys" using assms(3) sp(1) by auto
  moreover from assms(1) sp(1) have "\<forall>y\<in>set ys. \<not> outOfOrder t y"
    by (simp add: sorted_wrt_append)
  ultimately show False using assms(4) by blast
qed

lemma sorted_wrt_remove1: "sorted_wrt P xs \<Longrightarrow> sorted_wrt P (remove1 x xs)"
  by (induction xs) (auto dest: notin_set_remove1 set_remove1_subset[THEN subsetD])

lemma in_remove1D: "y \<in> set (remove1 x xs) \<Longrightarrow> y \<in> set xs"
  using set_remove1_subset by fastforce

lemma distinct_map_remove1: "distinct (map f xs) \<Longrightarrow> distinct (map f (remove1 x xs))"
  by (induction xs) (auto dest: in_remove1D)

lemma image_remove1:
  "distinct (map f xs) \<Longrightarrow> x \<in> set xs \<Longrightarrow> f ` set (remove1 x xs) = f ` set xs - {f x}"
  by (induction xs) (auto simp: image_iff)

lemma timersOK_set:
  "timersOK s =
     (distinct (map callback (timers s)) \<and>
      (\<forall>t\<in>set (timers s). map_of (jobs s) (target (callback t)) \<noteq> None) \<and>
      sorted_wrt (\<lambda>a b. \<not> outOfOrder a b) (timers s) \<and>
      (\<forall>a\<in>set (timers s). \<forall>b\<in>set (timers s). outOfOrder b a \<longrightarrow> due a \<le> due b))"
  by (simp add: timersOK_def list_all_iff)

lemma lifecycleOK_set:
  "lifecycleOK s =
     (distinct (map fst (jobs s)) \<and> timersOK s \<and>
      (\<forall>jid job. map_of (jobs s) jid = Some job \<longrightarrow> jobOK s jid job))"
proof -
  have "distinct (map fst (jobs s)) \<Longrightarrow>
        list_all (\<lambda>(jid, job). jobOK s jid job) (jobs s) =
        (\<forall>jid job. map_of (jobs s) jid = Some job \<longrightarrow> jobOK s jid job)"
    by (auto simp: list_all_iff)
  then show ?thesis by (auto simp: lifecycleOK_def)
qed

lemma callbacks_remove1:
  assumes "distinct (map callback ts)" and "t \<in> set ts"
  shows "set (map callback (remove1 t ts)) = set (map callback ts) - {callback t}"
  using image_remove1[OF assms] by simp

lemma timersOK_fire:
  assumes "timersOK s"
  shows "timersOK (s\<lparr> jobs := AList.update jid job' (jobs s), timers := remove1 t (timers s) \<rparr>)"
proof -
  from assms have d: "distinct (map callback (timers s))"
    and st: "\<forall>u\<in>set (timers s). map_of (jobs s) (target (callback u)) \<noteq> None"
    and so: "sorted_wrt (\<lambda>a b. \<not> outOfOrder a b) (timers s)"
    and du: "\<forall>a\<in>set (timers s). \<forall>b\<in>set (timers s). outOfOrder b a \<longrightarrow> due a \<le> due b"
    by (simp_all add: timersOK_set)
  have sub: "\<And>u. u \<in> set (remove1 t (timers s)) \<Longrightarrow> u \<in> set (timers s)"
    by (rule in_remove1D)
  have 1: "distinct (map callback (remove1 t (timers s)))"
    using d by (rule distinct_map_remove1)
  have 2: "\<forall>u\<in>set (remove1 t (timers s)).
             map_of (AList.update jid job' (jobs s)) (target (callback u)) \<noteq> None"
    using st sub by (auto simp: update_conv')
  have 3: "sorted_wrt (\<lambda>a b. \<not> outOfOrder a b) (remove1 t (timers s))"
    using so by (rule sorted_wrt_remove1)
  have 4: "\<forall>a\<in>set (remove1 t (timers s)). \<forall>b\<in>set (remove1 t (timers s)).
             outOfOrder b a \<longrightarrow> due a \<le> due b"
    using du sub by blast
  from 1 2 3 4 show ?thesis by (simp add: timersOK_set)
qed

lemma jobOK_other:
  assumes "jobOK s k j" and "distinct (map callback (timers s))" and "t \<in> set (timers s)"
    and "target (callback t) \<noteq> k"
  shows "jobOK (s\<lparr> jobs := js, timers := remove1 t (timers s) \<rparr>) k j"
proof -
  have "callback t \<noteq> ToProcessing k" "callback t \<noteq> ToTerminal k"
    using assms(4) by auto
  then show ?thesis
    using assms(1) callbacks_remove1[OF assms(2,3)]
    by (simp add: jobOK_def)
qed

lemma lifecycleOK_fire:
  assumes ok: "lifecycleOK s" and t: "t \<in> set (timers s)"
    and new: "jobOK (s\<lparr> jobs := AList.update (target (callback t)) job' (jobs s),
                         timers := remove1 t (timers s) \<rparr>) (target (callback t)) job'"
  shows "lifecycleOK (s\<lparr> jobs := AList.update (target (callback t)) job' (jobs s),
                         timers := remove1 t (timers s) \<rparr>)"
proof -
  let ?s' = "s\<lparr> jobs := AList.update (target (callback t)) job' (jobs s),
                 timers := remove1 t (timers s) \<rparr>"
  from ok have dk: "distinct (map fst (jobs s))" and tk: "timersOK s"
    and jk: "\<forall>jid job. map_of (jobs s) jid = Some job \<longrightarrow> jobOK s jid job"
    by (simp_all add: lifecycleOK_set)
  from tk have d: "distinct (map callback (timers s))" by (simp add: timersOK_set)
  have 1: "distinct (map fst (jobs ?s'))" using dk by (simp add: distinct_update)
  have 2: "timersOK ?s'" using tk by (rule timersOK_fire)
  have 3: "\<forall>jid job. map_of (jobs ?s') jid = Some job \<longrightarrow> jobOK ?s' jid job"
  proof (intro allI impI)
    fix jid job
    assume a: "map_of (jobs ?s') jid = Some job"
    show "jobOK ?s' jid job"
    proof (cases "jid = target (callback t)")
      case True
      with a have "job = job'" by (simp add: update_conv')
      with True new show ?thesis by simp
    next
      case False
      with a have "map_of (jobs s) jid = Some job" by (simp add: update_conv')
      with jk have "jobOK s jid job" by blast
      from jobOK_other[OF this d t] False show ?thesis by simp
    qed
  qed
  from 1 2 3 show ?thesis by (simp add: lifecycleOK_set)
qed

lemma lifecycleStep_refl: "lifecycleStep s s"
  by (simp add: lifecycleStep_def)

lemma lifecycleStep_update:
  assumes "map_of (jobs s) jid = Some job" and "statusNext (status job) (status job')"
    and "jobs s' = AList.update jid job' (jobs s)"
  shows "lifecycleStep s s'"
  unfolding lifecycleStep_def
proof (intro allI impI)
  fix k j
  assume "map_of (jobs s) k = Some j"
  with assms show "\<exists>j'. map_of (jobs s') k = Some j' \<and> statusNext (status j) (status j')"
    by (cases "k = jid") (auto simp: update_conv')
qed

lemma fire_processing:
  assumes ok: "lifecycleOK s" and t: "t \<in> set (timers s)"
    and cb: "callback t = ToProcessing jid" and job: "map_of (jobs s) jid = Some job"
  shows "status job = Pending"
    and "jobOK (s\<lparr> jobs := AList.update jid (job\<lparr> status := Processing \<rparr>) (jobs s),
                   timers := remove1 t (timers s) \<rparr>) jid (job\<lparr> status := Processing \<rparr>)"
proof -
  from ok job have j: "jobOK s jid job" and tk: "timersOK s" by (simp_all add: lifecycleOK_set)
  from tk have d: "distinct (map callback (timers s))" by (simp add: timersOK_set)
  have inP: "ToProcessing jid \<in> set (map callback (timers s))"
    using t cb by (metis image_eqI list.set_map)
  with j show p: "status job = Pending" by (simp add: jobOK_def)
  with j have inT: "ToTerminal jid \<in> set (map callback (timers s))" by (simp add: jobOK_def)
  from j p have "jobInvariant (job\<lparr> status := Processing \<rparr>)" by (simp add: jobOK_def jobInvariant_def)
  then show "jobOK (s\<lparr> jobs := AList.update jid (job\<lparr> status := Processing \<rparr>) (jobs s),
                   timers := remove1 t (timers s) \<rparr>) jid (job\<lparr> status := Processing \<rparr>)"
    using callbacks_remove1[OF d t] cb inT by (simp add: jobOK_def)
qed

lemma fire_terminal:
  assumes ok: "lifecycleOK s" and e: "earliest (timers s) = Some t"
    and cb: "callback t = ToTerminal jid" and job: "map_of (jobs s) jid = Some job"
    and job': "job' = job\<lparr> status := Failed, error := Some msg, completedAt := Some now \<rparr> \<or>
               job' = job\<lparr> status := Completed, result := Some r, completedAt := Some now \<rparr>"
  shows "status job = Processing"
    and "jobOK (s\<lparr> jobs := AList.update jid job' (jobs s),
                   timers := remove1 t (timers s) \<rparr>) jid job'"
proof -
  from e have t: "t \<in> set (timers s)" by (rule earliest_mem)
  from ok job have j: "jobOK s jid job" and tk: "timersOK s" by (simp_all add: lifecycleOK_set)
  from tk have d: "distinct (map callback (timers s))"
    and so: "sorted_wrt (\<lambda>a b. \<not> outOfOrder a b) (timers s)"
    and du: "\<forall>a\<in>set (timers s). \<forall>b\<in>set (timers s). outOfOrder b a \<longrightarrow> due a \<le> due b"
    by (simp_all add: timersOK_set)
  have inT: "ToTerminal jid \<in> set (map callback (timers s))"
    using t cb by (metis image_eqI list.set_map)
  with j have pp: "status job = Pending \<or> status job = Processing" by (simp add: jobOK_def)
  have np: "status job \<noteq> Pending"
  proof
    assume "status job = Pending"
    with j have "ToProcessing jid \<in> set (map callback (timers s))" by (simp add: jobOK_def)
    then obtain u where u: "u \<in> set (timers s)" "callback u = ToProcessing jid" by auto
    with cb have oo: "outOfOrder t u" by (simp add: outOfOrder_def)
    with du u(1) t have "due u \<le> due t" by blast
    from terminal_not_earliest[OF so e u(1) oo this] show False .
  qed
  with pp show p: "status job = Processing" by simp
  with j have notP: "ToProcessing jid \<notin> set (map callback (timers s))" by (simp add: jobOK_def)
  from j p have nulls: "result job = None" "error job = None" "completedAt job = None"
    by (simp_all add: jobOK_def jobInvariant_def)
  from job' nulls have inv: "jobInvariant job'" and st: "status job' = Failed \<or> status job' = Completed"
    by (auto simp: jobInvariant_def)
  from st have st': "status job' \<noteq> Pending" "status job' \<noteq> Processing" by auto
  show "jobOK (s\<lparr> jobs := AList.update jid job' (jobs s),
                   timers := remove1 t (timers s) \<rparr>) jid job'"
    using callbacks_remove1[OF d t] cb notP inv st' by (simp add: jobOK_def)
qed

lemma fireNext_lifecycleOK:
  assumes ok: "lifecycleOK s"
  shows "lifecycleOK (fireNext cfg now s) \<and> lifecycleStep s (fireNext cfg now s)"
proof (cases "earliest (timers s)")
  case None
  then show ?thesis using ok by (simp add: fireNext_def lifecycleStep_refl)
next
  case (Some t)
  then have t: "t \<in> set (timers s)" by (rule earliest_mem)
  from ok have tk: "timersOK s" by (simp add: lifecycleOK_set)
  with t obtain job where job: "map_of (jobs s) (target (callback t)) = Some job"
    by (auto simp: timersOK_set)
  show ?thesis
  proof (cases "callback t")
    case (ToProcessing jid)
    with job have jb: "map_of (jobs s) jid = Some job" by simp
    let ?s' = "s\<lparr> jobs := AList.update jid (job\<lparr> status := Processing \<rparr>) (jobs s),
                   timers := remove1 t (timers s) \<rparr>"
    have eq: "fireNext cfg now s = ?s'"
      using Some ToProcessing jb by (simp add: fireNext_def)
    from fire_processing[OF ok t ToProcessing jb] have
      p: "status job = Pending" and n: "jobOK ?s' jid (job\<lparr> status := Processing \<rparr>)" by blast+
    from lifecycleOK_fire[OF ok t, of "job\<lparr> status := Processing \<rparr>"] n ToProcessing
    have "lifecycleOK ?s'" by simp
    moreover have "lifecycleStep s ?s'"
      by (rule lifecycleStep_update[OF jb, of "job\<lparr> status := Processing \<rparr>"]) (simp_all add: p)
    ultimately show ?thesis by (simp add: eq)
  next
    case (ToTerminal jid)
    with job have jb: "map_of (jobs s) jid = Some job" by simp
    define job' where "job' =
      (if SIMULATE cfg = ''fail''
       then job\<lparr> status := Failed, error := Some MOCK_FAIL_ERROR, completedAt := Some now \<rparr>
       else job\<lparr> status := Completed, result := Some MOCK_SUCCESS_RESULT, completedAt := Some now \<rparr>)"
    let ?s' = "s\<lparr> jobs := AList.update jid job' (jobs s), timers := remove1 t (timers s) \<rparr>"
    have eq: "fireNext cfg now s = ?s'"
      using Some ToTerminal jb by (simp add: fireNext_def job'_def)
    have alt: "job' = job\<lparr> status := Failed, error := Some MOCK_FAIL_ERROR, completedAt := Some now \<rparr> \<or>
               job' = job\<lparr> status := Completed, result := Some MOCK_SUCCESS_RESULT, completedAt := Some now \<rparr>"
      by (simp add: job'_def)
    from fire_terminal[OF ok Some ToTerminal jb alt] have
      p: "status job = Processing" and n: "jobOK ?s' jid job'" by blast+
    from lifecycleOK_fire[OF ok t, of job'] n ToTerminal
    have "lifecycleOK ?s'" by simp
    moreover have "statusNext (status job) (status job')" using p by (simp add: job'_def)
    then have "lifecycleStep s ?s'"
      by (rule lifecycleStep_update[OF jb]) simp
    ultimately show ?thesis by (simp add: eq)
  qed
qed

lemma due_order:
  assumes "delayInRange cfg"
  shows "nodeDelay (processingDelay cfg) \<le> nodeDelay (map_option of_int (DELAY_MS cfg))"
proof (cases "DELAY_MS cfg")
  case None
  then show ?thesis by (simp add: processingDelay_def)
next
  case (Some d)
  with assms have "d \<le> 2147483647" by (simp add: delayInRange_def)
  with timer_order[OF Some] show ?thesis by simp
qed

lemma timers_scheduleJob:
  "timers (scheduleJob cfg e jid s) = timers s @
     [\<lparr> requested = processingDelay cfg, due = loopNow e + nodeDelay (processingDelay cfg),
        callback = ToProcessing jid \<rparr>,
      \<lparr> requested = map_option of_int (DELAY_MS cfg),
        due = loopNow e + nodeDelay (map_option of_int (DELAY_MS cfg)),
        callback = ToTerminal jid \<rparr>]"
  by (simp add: scheduleJob_def setTimeout_def)

lemma lifecycleOK_submit:
  assumes ok: "lifecycleOK s" and fresh: "map_of (jobs s) jid = None"
    and range: "delayInRange cfg"
    and pend: "status job = Pending" "result job = None" "error job = None"
      "completedAt job = None"
  shows "lifecycleOK (scheduleJob cfg e jid (s\<lparr> jobs := AList.update jid job (jobs s) \<rparr>))"
proof -
  let ?t1 = "\<lparr> requested = processingDelay cfg, due = loopNow e + nodeDelay (processingDelay cfg),
        callback = ToProcessing jid \<rparr>"
  let ?t2 = "\<lparr> requested = map_option of_int (DELAY_MS cfg),
        due = loopNow e + nodeDelay (map_option of_int (DELAY_MS cfg)),
        callback = ToTerminal jid \<rparr>"
  let ?s' = "scheduleJob cfg e jid (s\<lparr> jobs := AList.update jid job (jobs s) \<rparr>)"
  have ts': "timers ?s' = timers s @ [?t1, ?t2]" by (simp add: timers_scheduleJob)
  have js': "jobs ?s' = AList.update jid job (jobs s)" by (simp add: jobs_scheduleJob)
  from ok have dk: "distinct (map fst (jobs s))" and tk: "timersOK s"
    and jk: "\<forall>k j. map_of (jobs s) k = Some j \<longrightarrow> jobOK s k j"
    by (simp_all add: lifecycleOK_set)
  from tk have d: "distinct (map callback (timers s))"
    and st: "\<forall>u\<in>set (timers s). map_of (jobs s) (target (callback u)) \<noteq> None"
    and so: "sorted_wrt (\<lambda>a b. \<not> outOfOrder a b) (timers s)"
    and du: "\<forall>a\<in>set (timers s). \<forall>b\<in>set (timers s). outOfOrder b a \<longrightarrow> due a \<le> due b"
    by (simp_all add: timersOK_set)
  have others: "\<forall>u\<in>set (timers s). target (callback u) \<noteq> jid"
    using st fresh by auto
  from others have oldP: "\<forall>u\<in>set (timers s). callback u \<noteq> ToProcessing jid"
    and oldT: "\<forall>u\<in>set (timers s). callback u \<noteq> ToTerminal jid"
    by fastforce+
  have t12: "due ?t1 \<le> due ?t2" using due_order[OF range] by simp
  have 1: "distinct (map fst (jobs ?s'))" using dk by (simp add: js' distinct_update)
  have ka: "distinct (map callback (timers ?s'))"
    using d oldP oldT by (auto simp: ts')
  have kb: "\<forall>u\<in>set (timers ?s'). map_of (jobs ?s') (target (callback u)) \<noteq> None"
    using st by (auto simp: ts' js' update_conv')
  have kc: "sorted_wrt (\<lambda>a b. \<not> outOfOrder a b) (timers ?s')"
    using so oldT by (auto simp: ts' sorted_wrt_append outOfOrder_def)
  have kd: "\<forall>a\<in>set (timers ?s'). \<forall>b\<in>set (timers ?s'). outOfOrder b a \<longrightarrow> due a \<le> due b"
  proof (intro ballI impI)
    fix a b
    assume a: "a \<in> set (timers ?s')" and b: "b \<in> set (timers ?s')" and oo: "outOfOrder b a"
    from a have a3: "a \<in> set (timers s) \<or> a = ?t1 \<or> a = ?t2" by (auto simp: ts')
    from b have b3: "b \<in> set (timers s) \<or> b = ?t1 \<or> b = ?t2" by (auto simp: ts')
    from oo have c: "callback b = ToTerminal (target (callback a))"
      "callback a = ToProcessing (target (callback a))" by (simp_all add: outOfOrder_def)
    from a3 show "due a \<le> due b"
    proof (elim disjE)
      assume ao: "a \<in> set (timers s)"
      with others have "target (callback a) \<noteq> jid" by blast
      with c(1) have "b \<noteq> ?t1" "b \<noteq> ?t2" by auto
      with b3 have "b \<in> set (timers s)" by blast
      with du ao oo show ?thesis by blast
    next
      assume a1: "a = ?t1"
      with c(1) have "callback b = ToTerminal jid" by simp
      with oldT b3 have "b = ?t2" by auto
      with a1 t12 show ?thesis by simp
    next
      assume "a = ?t2"
      with c(2) show ?thesis by simp
    qed
  qed
  from ka kb kc kd have 2: "timersOK ?s'" by (simp add: timersOK_set)
  have cbs: "set (map callback (timers ?s')) =
               set (map callback (timers s)) \<union> {ToProcessing jid, ToTerminal jid}"
    by (auto simp: ts')
  have 3: "\<forall>k j. map_of (jobs ?s') k = Some j \<longrightarrow> jobOK ?s' k j"
  proof (intro allI impI)
    fix k j
    assume a: "map_of (jobs ?s') k = Some j"
    show "jobOK ?s' k j"
    proof (cases "k = jid")
      case True
      with a have "j = job" by (simp add: js' update_conv')
      with True pend cbs show ?thesis by (simp add: jobOK_def jobInvariant_def)
    next
      case False
      with a have "map_of (jobs s) k = Some j" by (simp add: js' update_conv')
      with jk have "jobOK s k j" by blast
      with False cbs show ?thesis by (simp add: jobOK_def)
    qed
  qed
  from 1 2 3 show ?thesis by (simp add: lifecycleOK_set)
qed

lemma filterMissing_nullish:
  "b = JNull \<or> b = JUndefined \<Longrightarrow> filterMissing b required = Inl TypeError"
  by (auto simp: required_def)

lemma handleRequest_state_explicit:
  "snd (handleRequest cfg e req s) = s \<or>
   snd (handleRequest cfg e req s) =
     scheduleJob cfg e (uuid e) (s\<lparr> jobs := AList.update (uuid e)
       \<lparr> jobId = uuid e, status = Pending,
         organizationUrl = fieldValue (readBody req) OrganizationUrl,
         projectId = fieldValue (readBody req) ProjectId,
         repositoryId = fieldValue (readBody req) RepositoryId,
         pullRequestId = fieldValue (readBody req) PullRequestId,
         iterationId = fieldValue (readBody req) IterationId,
         submittedAt = dateNow e, completedAt = None, result = None, error = None \<rparr>
       (jobs s) \<rparr>)"
proof (cases "readBody req = JNull \<or> readBody req = JUndefined")
  case True
  then show ?thesis
    by (simp add: handleRequest_def Let_def filterMissing_nullish split: option.splits)
next
  case False
  then have nn: "readBody req \<noteq> JNull" "readBody req \<noteq> JUndefined" by simp_all
  show ?thesis
    by (simp add: handleRequest_def Let_def makeJob_created[OF nn] split: option.splits sum.splits)
qed

lemma handleRequest_state:
  "snd (handleRequest cfg e req s) = s \<or>
   (\<exists>job. status job = Pending \<and> result job = None \<and> error job = None \<and>
      completedAt job = None \<and>
      snd (handleRequest cfg e req s) =
        scheduleJob cfg e (uuid e) (s\<lparr> jobs := AList.update (uuid e) job (jobs s) \<rparr>))"
proof -
  let ?job = "\<lparr> jobId = uuid e, status = Pending,
         organizationUrl = fieldValue (readBody req) OrganizationUrl,
         projectId = fieldValue (readBody req) ProjectId,
         repositoryId = fieldValue (readBody req) RepositoryId,
         pullRequestId = fieldValue (readBody req) PullRequestId,
         iterationId = fieldValue (readBody req) IterationId,
         submittedAt = dateNow e, completedAt = None, result = None, error = None \<rparr>"
  from handleRequest_state_explicit[of cfg e req s] show ?thesis
  proof
    assume "snd (handleRequest cfg e req s) = s"
    then show ?thesis by (rule disjI1)
  next
    assume a: "snd (handleRequest cfg e req s) =
      scheduleJob cfg e (uuid e) (s\<lparr> jobs := AList.update (uuid e) ?job (jobs s) \<rparr>)"
    have "status ?job = Pending \<and> result ?job = None \<and> error ?job = None \<and>
      completedAt ?job = None" by simp
    with a show ?thesis by (intro disjI2 exI[of _ ?job] conjI) simp_all
  qed
qed

lemma handleRequest_lifecycleOK:
  assumes "lifecycleOK s" and "map_of (jobs s) (uuid e) = None" and "delayInRange cfg"
  shows "lifecycleOK (snd (handleRequest cfg e req s)) \<and>
         lifecycleStep s (snd (handleRequest cfg e req s))"
proof -
  have "lifecycleOK (snd (handleRequest cfg e req s))"
    using handleRequest_state[of cfg e req s] assms lifecycleOK_submit[OF assms(1,2,3)]
    by auto
  moreover have "lifecycleStep s (snd (handleRequest cfg e req s))"
    unfolding lifecycleStep_def
    using handleRequest_frame[OF _ assms(2), of _ _ cfg req] by auto
  ultimately show ?thesis by simp
qed

lemma step_lifecycleOK:
  assumes "delayInRange cfg" and "freshIds cfg s [ev]" and "lifecycleOK s"
  shows "lifecycleOK (step cfg s ev) \<and> lifecycleStep s (step cfg s ev)"
proof (cases ev)
  case (Request e req)
  with assms handleRequest_lifecycleOK[of s e cfg req] show ?thesis by simp
next
  case (TimerFires now)
  with assms fireNext_lifecycleOK[of s cfg now] show ?thesis by simp
qed

lemma lifecycleOK_initial: "lifecycleOK initialState"
  by (simp add: lifecycleOK_def timersOK_def initialState_def)

lemma lifecycleOK_run:
  assumes "delayInRange cfg" and "freshIds cfg s evs" and "lifecycleOK s"
  shows "lifecycleOK (run cfg s evs)"
  using assms(2,3)
proof (induction evs arbitrary: s)
  case Nil
  then show ?case by (simp add: run_def)
next
  case (Cons ev evs)
  from Cons.prems(1) have f1: "freshIds cfg s [ev]" and f2: "freshIds cfg (step cfg s ev) evs"
    using freshIds_Cons by blast+
  from step_lifecycleOK[OF assms(1) f1 Cons.prems(2)] have "lifecycleOK (step cfg s ev)" by simp
  from Cons.IH[OF f2 this] show ?case by (simp add: run_def)
qed

lemma freshIds_append:
  "freshIds cfg s (evs @ evs') = (freshIds cfg s evs \<and> freshIds cfg (run cfg s evs) evs')"
proof (induction evs arbitrary: s)
  case Nil
  then show ?case by (simp add: run_def)
next
  case (Cons ev evs)
  then show ?case by (cases ev) (simp_all add: run_def)
qed

lemma run_append: "run cfg s (evs @ evs') = run cfg (run cfg s evs) evs'"
  by (simp add: run_def)

lemma jobs_satisfy_invariant:
  assumes "delayInRange cfg" and "freshIds cfg initialState evs"
  shows "list_all jobInvariant (mapValues (jobs (run cfg initialState evs)))"
proof -
  from lifecycleOK_run[OF assms lifecycleOK_initial]
  have "list_all (\<lambda>(jid, job). jobOK (run cfg initialState evs) jid job)
          (jobs (run cfg initialState evs))"
    by (simp add: lifecycleOK_def)
  then show ?thesis
    by (auto simp: list_all_iff mapValues_def jobOK_def)
qed

lemma statuses_follow_lifecycle:
  assumes "delayInRange cfg" and "freshIds cfg initialState (evs @ [ev])"
  shows "lifecycleStep (run cfg initialState evs) (run cfg initialState (evs @ [ev]))"
proof -
  from assms(2) have f: "freshIds cfg initialState evs"
    "freshIds cfg (run cfg initialState evs) [ev]"
    by (simp_all add: freshIds_append)
  from lifecycleOK_run[OF assms(1) f(1) lifecycleOK_initial]
  have "lifecycleOK (run cfg initialState evs)" .
  from step_lifecycleOK[OF assms(1) f(2) this] show ?thesis
    by (simp add: run_append run_def)
qed

section \<open>A delay out of range\<close>

text \<open>
  Claim C1. By \<open>jobs_satisfy_invariant\<close> the relation between status and nullable
  fields holds of every stored job while the delay is at most \<open>2\<^sup>3\<^sup>1 - 1\<close> and timers
  fire by due time, as they do in this model. With
  \<^verbatim>\<open>DELAY_MS=2147483648\<close> one job is submitted and its two timers fire. The timer of
  the terminal transition fires first and completes the job; the other then sets the
  status back to processing, with \<^verbatim>\<open>result\<close> and \<^verbatim>\<open>completedAt\<close> still set: the
  store holds a job that violates the relation between status and nullable fields.
\<close>

theorem invariant_broken_when_delay_overflows:
  "map (\<lambda>(k, j). (status j, completedAt j, result j, error j))
     (jobs (run (defaultConfig\<lparr> DELAY_MS := Some 2147483648 \<rparr>) initialState
        [Request (sampleEnv ''a'' 5) (submitRequest (Some sampleBody)),
         TimerFires 6, TimerFires 2005])) =
     [(Processing, Some 6, Some MOCK_SUCCESS_RESULT, None)] \<and>
   \<not> list_all jobInvariant (mapValues (jobs
      (run (defaultConfig\<lparr> DELAY_MS := Some 2147483648 \<rparr>) initialState
         [Request (sampleEnv ''a'' 5) (submitRequest (Some sampleBody)),
          TimerFires 6, TimerFires 2005])))"
  by (simp add: run_simps jobInvariant_def)

text \<open>
  Claim C2. By \<open>statuses_follow_lifecycle\<close> every job moves from pending over
  processing to completed or failed while the delay is at most \<open>2\<^sup>3\<^sup>1 - 1\<close> and
  timers fire by due time, as they do in this model. With
  \<^verbatim>\<open>DELAY_MS=2147483648\<close> the processing timer of a job is due 2000 milliseconds after
  the submission and its terminal timer 1 millisecond after it; the statuses observed of
  the job are pending, completed, processing: the second timer fires before the first,
  and the first transition leaves a terminal state.
\<close>

theorem terminal_before_processing_when_delay_overflows:
  "map (\<lambda>t. (callback t, due t))
     (timers (run (defaultConfig\<lparr> DELAY_MS := Some 2147483648 \<rparr>) initialState
        [Request (sampleEnv ''a'' 5) (submitRequest (Some sampleBody))])) =
     [(ToProcessing ''a'', 2005), (ToTerminal ''a'', 6)] \<and>
   map (\<lambda>evs. map (\<lambda>(k, j). status j)
          (jobs (run (defaultConfig\<lparr> DELAY_MS := Some 2147483648 \<rparr>) initialState evs)))
     [[Request (sampleEnv ''a'' 5) (submitRequest (Some sampleBody))],
      [Request (sampleEnv ''a'' 5) (submitRequest (Some sampleBody)), TimerFires 6],
      [Request (sampleEnv ''a'' 5) (submitRequest (Some sampleBody)), TimerFires 6,
       TimerFires 2005]] =
     [[Pending], [Completed], [Processing]]"
  by (simp add: run_simps)

text \<open>
  The terminal timer is due \<open>d\<close> milliseconds after it is armed while \<open>d\<close> lies between
  1 and \<open>2\<^sup>3\<^sup>1 - 1\<close>, and 1 millisecond after it is armed for every other \<open>d\<close>.
\<close>

lemma terminal_due_in_range:
  assumes "DELAY_MS cfg = Some d" and "1 \<le> d" and "d \<le> 2147483647"
  shows "map due (drop (length (timers s)) (timers (scheduleJob cfg e jid s))) =
           [loopNow e + max 1 (nat \<lfloor>min 2000 (of_int d * (33 / 100) :: rat)\<rfloor>),
            loopNow e + nat d]"
proof -
  have r: "\<not> (of_int d :: rat) < 1" "\<not> (2147483647 :: rat) < of_int d"
    using assms(2,3) by linarith+
  have m: "\<not> (2147483647 :: rat) < min 2000 (of_int d * (33 / 100))" by simp
  show ?thesis
  proof (cases "d < 4")
    case True
    with assms(2) have "d = 1 \<or> d = 2 \<or> d = 3" by arith
    then show ?thesis using assms(1) r
      by (auto simp: scheduleJob_def setTimeout_def processingDelay_def TIMEOUT_MAX_def)
  next
    case False
    then have "(4 :: rat) \<le> of_int d" by linarith
    then have one: "(1 :: rat) \<le> min 2000 (of_int d * (33 / 100))" by (simp add: min_def)
    then have "1 \<le> \<lfloor>min 2000 (of_int d * (33 / 100) :: rat)\<rfloor>" by (simp add: le_floor_iff)
    then have "(1 :: nat) \<le> nat \<lfloor>min 2000 (of_int d * (33 / 100) :: rat)\<rfloor>" by linarith
    then have "max 1 (nat \<lfloor>min 2000 (of_int d * (33 / 100) :: rat)\<rfloor>) =
               nat \<lfloor>min 2000 (of_int d * (33 / 100) :: rat)\<rfloor>" by (rule max_absorb2)
    moreover from one have "\<not> min 2000 (of_int d * (33 / 100) :: rat) < 1" by simp
    ultimately show ?thesis using assms(1) r m
      by (simp add: scheduleJob_def setTimeout_def processingDelay_def TIMEOUT_MAX_def)
  qed
qed

lemma terminal_due_out_of_range:
  assumes "DELAY_MS cfg = Some d" and "2147483647 < d"
  shows "map due (drop (length (timers s)) (timers (scheduleJob cfg e jid s))) =
           [loopNow e + 2000, loopNow e + 1]"
proof -
  have r: "(2147483647 :: rat) < of_int d" using assms(2) by linarith
  then have "(2000 :: rat) \<le> of_int d * (33 / 100)" by linarith
  then have "min 2000 (of_int d * (33 / 100) :: rat) = 2000" by simp
  with assms(1) r show ?thesis
    by (simp add: scheduleJob_def setTimeout_def processingDelay_def TIMEOUT_MAX_def)
qed

text \<open>
  Claim C6. With \<^verbatim>\<open>DELAY_MS=2147483648\<close> the job created at time 5 has its first timer
  armed with the delay 2000 and due at 2005, and its second armed with the delay
  2147483648 and due at 6: the second transition fires 1 millisecond after the job was
  created and completes it, where the claim has it fire at the total delay. For the total
  delays between 1 and \<open>2\<^sup>3\<^sup>1 - 1\<close> the timers are due as the claim says, in whole
  milliseconds (\<open>terminal_due_in_range\<close>), and the callbacks do what it says for every
  delay (\<open>scheduled_transitions\<close>).
\<close>

theorem terminal_transition_fires_early_when_delay_overflows:
  "map (\<lambda>t. (callback t, requested t, due t))
     (timers (scheduleJob (defaultConfig\<lparr> DELAY_MS := Some 2147483648 \<rparr>)
        (sampleEnv ''a'' 5) ''a'' \<lparr> jobs = [(''a'', sampleJob ''a'' 5)], timers = [] \<rparr>)) =
     [(ToProcessing ''a'', Some 2000, 2005), (ToTerminal ''a'', Some 2147483648, 6)] \<and>
   map (\<lambda>(k, j). (status j, completedAt j))
     (jobs (fireNext (defaultConfig\<lparr> DELAY_MS := Some 2147483648 \<rparr>) 6
        (scheduleJob (defaultConfig\<lparr> DELAY_MS := Some 2147483648 \<rparr>)
           (sampleEnv ''a'' 5) ''a''
           \<lparr> jobs = [(''a'', sampleJob ''a'' 5)], timers = [] \<rparr>))) =
     [(Completed, Some 6)]"
  by (simp add: run_simps)

end
